theory Spec2Isabelle
  imports Complex_Main
begin

section \<open>Numeric values\<close>

text \<open>
  The distances handled by \<^verbatim>\<open>face_service.py\<close> are numpy \<^verbatim>\<open>float64\<close> scalars.
  Such a scalar is a number (\<open>Fin x\<close>, with \<open>x\<close> the exact value of the float) or one
  of the three special values, which the code reaches: \<^verbatim>\<open>float('inf')\<close> is the initial
  running best of \<^verbatim>\<open>verify_face\<close>, and a numpy scalar division by zero does not raise:
  it yields \<^verbatim>\<open>nan\<close> for \<^verbatim>\<open>0/0\<close> and an infinity otherwise.

  Comparisons of floats are exact. Arithmetic is not: the result of an operation on two
  numbers is its exact result rounded to a float, which may also overflow to an
  infinity. The rounding is the argument \<open>r\<close> of the operations below (from the exact
  result to the float returned); what they fix is the treatment of the special values,
  which is the one of IEEE 754. The sign of a zero is not kept: the only divisor in
  \<^verbatim>\<open>face_service.py\<close> is a product of two norms, which is never a negative zero.
\<close>

datatype npfloat = Fin real | PInf | NInf | NaN

text \<open>\<^verbatim>\<open>x < y\<close> and \<^verbatim>\<open>x <= y\<close> on floats: every comparison with \<^verbatim>\<open>nan\<close> is false.\<close>

fun fl_less :: "npfloat \<Rightarrow> npfloat \<Rightarrow> bool" where
  "fl_less NaN y = False"
| "fl_less x NaN = False"
| "fl_less (Fin a) (Fin b) = (a < b)"
| "fl_less (Fin a) PInf = True"
| "fl_less (Fin a) NInf = False"
| "fl_less PInf y = False"
| "fl_less NInf (Fin b) = True"
| "fl_less NInf PInf = True"
| "fl_less NInf NInf = False"

fun fl_le :: "npfloat \<Rightarrow> npfloat \<Rightarrow> bool" where
  "fl_le NaN y = False"
| "fl_le x NaN = False"
| "fl_le (Fin a) (Fin b) = (a \<le> b)"
| "fl_le (Fin a) PInf = True"
| "fl_le (Fin a) NInf = False"
| "fl_le PInf PInf = True"
| "fl_le PInf y = False"
| "fl_le NInf y = True"

text \<open>\<^verbatim>\<open>1 - x\<close>.\<close>

fun one_minus :: "(real \<Rightarrow> npfloat) \<Rightarrow> npfloat \<Rightarrow> npfloat" where
  "one_minus r (Fin a) = r (1 - a)"
| "one_minus r PInf = NInf"
| "one_minus r NInf = PInf"
| "one_minus r NaN = NaN"

text \<open>\<^verbatim>\<open>x * y\<close>.\<close>

fun fl_mul :: "(real \<Rightarrow> npfloat) \<Rightarrow> npfloat \<Rightarrow> npfloat \<Rightarrow> npfloat" where
  "fl_mul r NaN y = NaN"
| "fl_mul r x NaN = NaN"
| "fl_mul r (Fin a) (Fin b) = r (a * b)"
| "fl_mul r (Fin a) PInf = (if a = 0 then NaN else if 0 < a then PInf else NInf)"
| "fl_mul r (Fin a) NInf = (if a = 0 then NaN else if 0 < a then NInf else PInf)"
| "fl_mul r PInf (Fin b) = (if b = 0 then NaN else if 0 < b then PInf else NInf)"
| "fl_mul r NInf (Fin b) = (if b = 0 then NaN else if 0 < b then NInf else PInf)"
| "fl_mul r PInf PInf = PInf"
| "fl_mul r PInf NInf = NInf"
| "fl_mul r NInf PInf = NInf"
| "fl_mul r NInf NInf = PInf"

text \<open>
  \<^verbatim>\<open>x / y\<close> on numpy scalars: no exception on a zero divisor (numpy only emits a
  warning).
\<close>

fun fl_div :: "(real \<Rightarrow> npfloat) \<Rightarrow> npfloat \<Rightarrow> npfloat \<Rightarrow> npfloat" where
  "fl_div r NaN y = NaN"
| "fl_div r x NaN = NaN"
| "fl_div r (Fin a) (Fin b) =
     (if b = 0 then (if a = 0 then NaN else if 0 < a then PInf else NInf)
      else r (a / b))"
| "fl_div r (Fin a) PInf = Fin 0"
| "fl_div r (Fin a) NInf = Fin 0"
| "fl_div r PInf (Fin b) = (if 0 \<le> b then PInf else NInf)"
| "fl_div r NInf (Fin b) = (if 0 \<le> b then NInf else PInf)"
| "fl_div r PInf PInf = NaN"
| "fl_div r PInf NInf = NaN"
| "fl_div r NInf PInf = NaN"
| "fl_div r NInf NInf = NaN"

section \<open>Exceptions\<close>

text \<open>
  Every \<^verbatim>\<open>raise\<close> the modelled code can meet is a value. \<open>ExtractionError\<close> carries
  the message of the exception that left \<^verbatim>\<open>generate_embedding\<close>; \<open>ShapeMismatch\<close> is the
  \<^verbatim>\<open>ValueError\<close> of \<^verbatim>\<open>np.dot\<close> on arrays of different length; \<open>MinEmptySequence\<close> the
  \<^verbatim>\<open>ValueError\<close> of \<^verbatim>\<open>min([])\<close>; \<open>PyMongoError\<close> a failure of a driver call;
  \<open>DuplicateKeyError\<close> the violation of the unique index on \<^verbatim>\<open>student_id\<close>.
\<close>

datatype exn =
    ExtractionError string
  | ShapeMismatch
  | MinEmptySequence
  | PyMongoError
  | DuplicateKeyError

section \<open>Embeddings and numpy\<close>

text \<open>An embedding is a one-dimensional array of floats that are numbers.\<close>

type_synonym embedding = "real list"

text \<open>
  numpy is outside the repository. What \<^verbatim>\<open>face_service.py\<close> uses of it is held in a
  record: \<open>dot_value a b\<close> is the float that \<^verbatim>\<open>np.dot\<close> returns for two arrays of the
  same length, \<open>linalg_norm a\<close> the float that \<^verbatim>\<open>np.linalg.norm\<close> returns, and
  \<open>rounded x\<close> the float that a scalar operation returns when its exact result is
  \<open>x\<close>. Nothing is assumed of the three: the order of the additions inside \<^verbatim>\<open>np.dot\<close>,
  overflow and underflow are theirs.
\<close>

record numeric =
  dot_value :: "embedding \<Rightarrow> embedding \<Rightarrow> npfloat"
  linalg_norm :: "embedding \<Rightarrow> npfloat"
  rounded :: "real \<Rightarrow> npfloat"

text \<open>\<^verbatim>\<open>np.dot(emb1, emb2)\<close> on one-dimensional arrays: it raises when the lengths differ.\<close>

definition np_dot :: "numeric \<Rightarrow> embedding \<Rightarrow> embedding \<Rightarrow> exn + npfloat" where
  "np_dot n a b =
     (if length a \<noteq> length b then Inl ShapeMismatch
      else Inr (dot_value n a b))"

section \<open>The store (\<^verbatim>\<open>database.py\<close>)\<close>

text \<open>
  A document of the \<^verbatim>\<open>students\<close> collection. The key \<^verbatim>\<open>embeddings\<close> may be absent
  (\<open>None\<close>), which \<^verbatim>\<open>_deserialize_student\<close> and \<^verbatim>\<open>update_student_embeddings\<close> both
  provide for; \<^verbatim>\<open>Binary(pickle.dumps(emb))\<close> followed by \<^verbatim>\<open>pickle.loads\<close> gives the
  array back, so the stored value is the array itself. Object ids are numbers handed
  out in sequence.
\<close>

record student_doc =
  d_oid :: nat
  d_name :: string
  d_student_id :: string
  d_embeddings :: "embedding list option"
  d_image_count :: nat
  d_image_paths :: "string list"
  d_is_active :: bool

record attendance_doc =
  a_oid :: nat
  a_student_id :: string
  a_check_in :: "string option"
  a_date :: "string option"
  a_image_path :: "string option"
  a_verified :: bool

text \<open>
  The database: its two collections, the next object id, and the behaviour of the
  server as seen by the driver: \<open>faults\<close> says, for each coming driver call in turn,
  whether it raises (an exhausted list means that no further call fails). A call that
  raises changes no collection.
\<close>

record mongo =
  students :: "student_doc list"
  attendance :: "attendance_doc list"
  next_oid :: nat
  faults :: "bool list"

definition driver_call :: "mongo \<Rightarrow> bool \<times> mongo" where
  "driver_call db =
     (case faults db of
        [] \<Rightarrow> (False, db)
      | f # fs \<Rightarrow> (f, db\<lparr>faults := fs\<rparr>))"

text \<open>The dictionary that \<^verbatim>\<open>_deserialize_student\<close> returns.\<close>

record student =
  s_id :: nat
  s_name :: string
  s_student_id :: string
  s_embeddings :: "embedding list"
  s_image_count :: nat
  s_image_paths :: "string list"
  s_is_active :: bool

definition deserialize_student :: "student_doc \<Rightarrow> student" where
  "deserialize_student d =
     \<lparr> s_id = d_oid d,
       s_name = d_name d,
       s_student_id = d_student_id d,
       s_embeddings = (case d_embeddings d of None \<Rightarrow> [] | Some es \<Rightarrow> es),
       s_image_count = d_image_count d,
       s_image_paths = d_image_paths d,
       s_is_active = d_is_active d \<rparr>"

text \<open>\<^verbatim>\<open>self.students.find_one({"student_id": student_id})\<close>: the first document with that id.\<close>

definition find_one_student :: "mongo \<Rightarrow> string \<Rightarrow> (exn + student_doc option) \<times> mongo" where
  "find_one_student db sid =
     (let (bad, db') = driver_call db in
      if bad then (Inl PyMongoError, db')
      else (Inr (find (\<lambda>d. d_student_id d = sid) (students db')), db'))"

definition get_student_by_id :: "mongo \<Rightarrow> string \<Rightarrow> (exn + student option) \<times> mongo" where
  "get_student_by_id db sid =
     (case find_one_student db sid of
        (Inl e, db') \<Rightarrow> (Inl e, db')
      | (Inr None, db') \<Rightarrow> (Inr None, db')
      | (Inr (Some d), db') \<Rightarrow> (Inr (Some (deserialize_student d)), db'))"

text \<open>
  \<^verbatim>\<open>add_student\<close>: one \<^verbatim>\<open>insert_one\<close>. The collection has a unique index on
  \<^verbatim>\<open>student_id\<close> (created in \<^verbatim>\<open>__init__\<close>), so the insertion of a second document
  with the same id raises.
\<close>

definition add_student ::
  "mongo \<Rightarrow> string \<Rightarrow> string \<Rightarrow> embedding list \<Rightarrow> string list \<Rightarrow> (exn + nat) \<times> mongo" where
  "add_student db name sid embs image_paths =
     (let (bad, db') = driver_call db in
      if bad then (Inl PyMongoError, db')
      else if \<exists>d \<in> set (students db'). d_student_id d = sid then (Inl DuplicateKeyError, db')
      else
        (Inr (next_oid db'),
         db'\<lparr> students := students db' @
                 [\<lparr> d_oid = next_oid db', d_name = name, d_student_id = sid,
                    d_embeddings = Some embs, d_image_count = length embs,
                    d_image_paths = image_paths, d_is_active = True \<rparr>],
               next_oid := Suc (next_oid db') \<rparr>))"

text \<open>The entries of the list that \<^verbatim>\<open>get_all_embeddings\<close> returns.\<close>

record student_embeddings =
  e_student_id :: string
  e_name :: string
  e_embeddings :: "embedding list"

definition get_all_embeddings :: "mongo \<Rightarrow> (exn + student_embeddings list) \<times> mongo" where
  "get_all_embeddings db =
     (let (bad, db') = driver_call db in
      if bad then (Inl PyMongoError, db')
      else
        (Inr (map (\<lambda>d. let sd = deserialize_student d in
                       \<lparr> e_student_id = s_student_id sd, e_name = s_name sd,
                         e_embeddings = s_embeddings sd \<rparr>)
                  (filter d_is_active (students db'))),
         db'))"

text \<open>
  \<^verbatim>\<open>record_attendance\<close>: the date is \<^verbatim>\<open>check_in_time.split('T')[0]\<close> when a non-empty
  time is given, \<^verbatim>\<open>None\<close> otherwise.
\<close>

definition record_attendance ::
  "mongo \<Rightarrow> string \<Rightarrow> string option \<Rightarrow> string option \<Rightarrow> (exn + nat) \<times> mongo" where
  "record_attendance db sid check_in_time image_path =
     (let (bad, db') = driver_call db in
      if bad then (Inl PyMongoError, db')
      else
        (Inr (next_oid db'),
         db'\<lparr> attendance := attendance db' @
                 [\<lparr> a_oid = next_oid db', a_student_id = sid, a_check_in = check_in_time,
                    a_date = (case check_in_time of
                                None \<Rightarrow> None
                              | Some t \<Rightarrow> if t = [] then None
                                          else Some (takeWhile (\<lambda>c. c \<noteq> CHR ''T'') t)),
                    a_image_path = image_path, a_verified = True \<rparr>],
               next_oid := Suc (next_oid db') \<rparr>))"

text \<open>\<^verbatim>\<open>update_one({"student_id": sid}, {"$set": ...})\<close> acts on the first matching document.\<close>

fun update_first :: "string \<Rightarrow> (student_doc \<Rightarrow> student_doc) \<Rightarrow> student_doc list \<Rightarrow> student_doc list" where
  "update_first sid f [] = []"
| "update_first sid f (d # ds) =
     (if d_student_id d = sid then f d # ds else d # update_first sid f ds)"

text \<open>
  \<^verbatim>\<open>update_student_embeddings\<close>: \<^verbatim>\<open>find_one\<close>, then \<^verbatim>\<open>update_one\<close> with the combined
  lists. \<^verbatim>\<open>modified_count\<close> is positive when the update changed the document found.
\<close>

definition update_student_embeddings ::
  "mongo \<Rightarrow> string \<Rightarrow> embedding list \<Rightarrow> string list \<Rightarrow> (exn + bool) \<times> mongo" where
  "update_student_embeddings db sid new_embeddings new_image_paths =
     (case find_one_student db sid of
        (Inl e, db1) \<Rightarrow> (Inl e, db1)
      | (Inr None, db1) \<Rightarrow> (Inr False, db1)
      | (Inr (Some current_student), db1) \<Rightarrow>
          (let current_embeddings =
                 (case d_embeddings current_student of None \<Rightarrow> [] | Some es \<Rightarrow> es);
               all_embeddings = current_embeddings @ new_embeddings;
               all_paths = d_image_paths current_student @ new_image_paths;
               upd = (\<lambda>d. d\<lparr> d_embeddings := Some all_embeddings,
                              d_image_count := length all_embeddings,
                              d_image_paths := all_paths \<rparr>);
               (bad, db2) = driver_call db1
           in if bad then (Inl PyMongoError, db2)
              else (Inr (upd current_student \<noteq> current_student),
                    db2\<lparr> students := update_first sid upd (students db2) \<rparr>)))"

text \<open>\<^verbatim>\<open>delete_student\<close>: the soft delete.\<close>

definition delete_student :: "mongo \<Rightarrow> string \<Rightarrow> (exn + bool) \<times> mongo" where
  "delete_student db sid =
     (let (bad, db') = driver_call db in
      if bad then (Inl PyMongoError, db')
      else (Inr (case find (\<lambda>d. d_student_id d = sid) (students db') of
                   None \<Rightarrow> False
                 | Some d \<Rightarrow> d_is_active d),
            db'\<lparr> students := update_first sid (\<lambda>d. d\<lparr>d_is_active := False\<rparr>) (students db') \<rparr>))"

section \<open>The face service (\<^verbatim>\<open>face_service.py\<close>)\<close>

text \<open>
  \<^verbatim>\<open>DeepFace.represent\<close> and the file system are outside the repository: the service
  holds them as \<open>extractor\<close>, which gives for an image path either the embedding or the
  message of the exception raised. \<open>confidence_threshold\<close> is the attribute of that
  name (\<^verbatim>\<open>0.6\<close> in \<^verbatim>\<open>__init__\<close>). \<open>np\<close> is the numpy that the module imports.
\<close>

record face_service =
  extractor :: "string \<Rightarrow> string + embedding"
  confidence_threshold :: npfloat
  np :: numeric

definition generate_embedding :: "face_service \<Rightarrow> string \<Rightarrow> exn + embedding" where
  "generate_embedding svc image_path =
     (case extractor svc image_path of
        Inl msg \<Rightarrow> Inl (ExtractionError msg)
      | Inr embedding \<Rightarrow> Inr embedding)"

text \<open>
  \<^verbatim>\<open>FaceService.cosine_distance\<close>:
  \<^verbatim>\<open>return 1 - np.dot(emb1, emb2) / (np.linalg.norm(emb1) * np.linalg.norm(emb2))\<close>.
  The dot product is evaluated first, so a shape mismatch raises before anything else;
  the two norms, their product, the quotient and the difference follow, with no test
  on any of them.
\<close>

definition cosine_distance :: "face_service \<Rightarrow> embedding \<Rightarrow> embedding \<Rightarrow> exn + npfloat" where
  "cosine_distance svc emb1 emb2 =
     (case np_dot (np svc) emb1 emb2 of
        Inl e \<Rightarrow> Inl e
      | Inr d \<Rightarrow>
          Inr (one_minus (rounded (np svc))
                 (fl_div (rounded (np svc)) d
                    (fl_mul (rounded (np svc))
                       (linalg_norm (np svc) emb1) (linalg_norm (np svc) emb2)))))"

text \<open>
  The texts stored under the key \<^verbatim>\<open>error\<close> of a result, in the order of the source:
  \<^verbatim>\<open>"Name and student ID are required"\<close>, \<^verbatim>\<open>"At least one image is required"\<close>,
  \<^verbatim>\<open>f"Student ID {student_id} already exists"\<close>,
  \<^verbatim>\<open>f"Only {n} images processed successfully. Need at least 3."\<close>,
  \<^verbatim>\<open>"No students registered in the system"\<close>, and \<^verbatim>\<open>str(e)\<close> of a caught exception.
\<close>

datatype error_text =
    NameAndIdRequired
  | ImageRequired
  | AlreadyExists string
  | OnlyProcessed nat
  | NoStudentsRegistered
  | Str exn

subsection \<open>Registration\<close>

text \<open>An entry of \<^verbatim>\<open>failed_images\<close>: the path and the exception caught for it.\<close>

type_synonym failed_image = "string \<times> exn"

text \<open>
  The loop over \<^verbatim>\<open>image_paths\<close> (lines 96 to 107), with its two accumulators
  \<^verbatim>\<open>successful_embeddings\<close> and \<^verbatim>\<open>failed_images\<close>. The loop of \<^verbatim>\<open>improve_recognition\<close>
  in \<^verbatim>\<open>app.py\<close> (lines 361 to 366) is the same.
\<close>

fun process_images ::
  "face_service \<Rightarrow> string list \<Rightarrow> embedding list \<Rightarrow> failed_image list
     \<Rightarrow> embedding list \<times> failed_image list" where
  "process_images svc [] successful_embeddings failed_images =
     (successful_embeddings, failed_images)"
| "process_images svc (image_path # rest) successful_embeddings failed_images =
     (case generate_embedding svc image_path of
        Inr embedding \<Rightarrow>
          process_images svc rest (successful_embeddings @ [embedding]) failed_images
      | Inl e \<Rightarrow>
          process_images svc rest successful_embeddings (failed_images @ [(image_path, e)]))"

record registered =
  r_student_id :: string
  r_name :: string
  r_db_id :: nat
  r_total_images :: nat
  r_successful_embeddings :: nat
  r_failed_images :: "failed_image list"

text \<open>
  The result of \<^verbatim>\<open>register_student\<close>, one constructor for each shape of dictionary
  returned: \<open>RegisterError\<close> is \<^verbatim>\<open>{"success": False, "error": ...}\<close> (lines 82, 85, 90
  and 138), \<open>RegisterTooFew\<close> has the key \<^verbatim>\<open>failed_images\<close> as well (line 111), and
  \<open>RegisterOk\<close> is the dictionary of line 125.
\<close>

datatype register_result =
    RegisterError error_text
  | RegisterTooFew error_text "failed_image list"
  | RegisterOk registered

fun reg_success :: "register_result \<Rightarrow> bool" where
  "reg_success (RegisterOk r) = True"
| "reg_success _ = False"

fun reg_error :: "register_result \<Rightarrow> error_text option" where
  "reg_error (RegisterError t) = Some t"
| "reg_error (RegisterTooFew t fs) = Some t"
| "reg_error (RegisterOk r) = None"

fun reg_failed_images :: "register_result \<Rightarrow> failed_image list option" where
  "reg_failed_images (RegisterError t) = None"
| "reg_failed_images (RegisterTooFew t fs) = Some fs"
| "reg_failed_images (RegisterOk r) = Some (r_failed_images r)"

definition register_student ::
  "face_service \<Rightarrow> mongo \<Rightarrow> string \<Rightarrow> string \<Rightarrow> string list \<Rightarrow> register_result \<times> mongo" where
  "register_student svc db name student_id image_paths =
     (if name = [] \<or> student_id = [] then (RegisterError NameAndIdRequired, db)
      else if image_paths = [] then (RegisterError ImageRequired, db)
      else
        (case get_student_by_id db student_id of
           (Inl e, db1) \<Rightarrow> (RegisterError (Str e), db1)
         | (Inr (Some existing_student), db1) \<Rightarrow>
             (RegisterError (AlreadyExists student_id), db1)
         | (Inr None, db1) \<Rightarrow>
             (let (successful_embeddings, failed_images) =
                    process_images svc image_paths [] []
              in if length successful_embeddings < 3
                 then (RegisterTooFew (OnlyProcessed (length successful_embeddings))
                         failed_images, db1)
                 else
                   (case add_student db1 name student_id successful_embeddings image_paths of
                      (Inl e, db2) \<Rightarrow> (RegisterError (Str e), db2)
                    | (Inr student_db_id, db2) \<Rightarrow>
                        (RegisterOk
                           \<lparr> r_student_id = student_id, r_name = name,
                             r_db_id = student_db_id,
                             r_total_images = length image_paths,
                             r_successful_embeddings = length successful_embeddings,
                             r_failed_images = failed_images \<rparr>, db2)))))"

subsection \<open>Verification\<close>

text \<open>An entry of \<^verbatim>\<open>all_distances\<close>, and the shape of \<^verbatim>\<open>best_match\<close>.\<close>

record candidate =
  c_student_id :: string
  c_name :: string
  c_distance :: npfloat

text \<open>
  Python's \<^verbatim>\<open>min\<close> on a list: it raises on the empty list, and otherwise keeps the
  first element until a later one compares strictly less.
\<close>

fun py_min :: "npfloat list \<Rightarrow> exn + npfloat" where
  "py_min [] = Inl MinEmptySequence"
| "py_min (x # xs) = Inr (foldl (\<lambda>m y. if fl_less y m then y else m) x xs)"

text \<open>The inner loop (lines 171 to 173): one distance for each stored embedding.\<close>

fun student_distances ::
  "face_service \<Rightarrow> embedding \<Rightarrow> embedding list \<Rightarrow> npfloat list \<Rightarrow> exn + npfloat list" where
  "student_distances svc input_embedding [] acc = Inr acc"
| "student_distances svc input_embedding (stored_embedding # rest) acc =
     (case cosine_distance svc input_embedding stored_embedding of
        Inl e \<Rightarrow> Inl e
      | Inr distance \<Rightarrow> student_distances svc input_embedding rest (acc @ [distance]))"

text \<open>The three variables of the outer loop (lines 162 to 164).\<close>

record scan =
  best_match :: "candidate option"
  best_distance :: npfloat
  all_distances :: "candidate list"

definition scan_init :: scan where
  "scan_init = \<lparr> best_match = None, best_distance = PInf, all_distances = [] \<rparr>"

text \<open>The outer loop (lines 167 to 189).\<close>

fun compare_students ::
  "face_service \<Rightarrow> embedding \<Rightarrow> student_embeddings list \<Rightarrow> scan \<Rightarrow> exn + scan" where
  "compare_students svc input_embedding [] st = Inr st"
| "compare_students svc input_embedding (student # rest) st =
     (case student_distances svc input_embedding (e_embeddings student) [] of
        Inl e \<Rightarrow> Inl e
      | Inr ds \<Rightarrow>
          (case py_min ds of
             Inl e \<Rightarrow> Inl e
           | Inr min_student_distance \<Rightarrow>
               (let c = \<lparr> c_student_id = e_student_id student, c_name = e_name student,
                          c_distance = min_student_distance \<rparr>;
                    st1 = st\<lparr> all_distances := all_distances st @ [c] \<rparr>;
                    st2 = (if fl_less min_student_distance (best_distance st)
                           then st1\<lparr> best_distance := min_student_distance,
                                     best_match := Some c \<rparr>
                           else st1)
                in compare_students svc input_embedding rest st2)))"

text \<open>
  \<^verbatim>\<open>sorted(all_distances, key=lambda x: x['distance'])[:5]\<close>. Python's sort is stable:
  on keys without \<^verbatim>\<open>nan\<close> its result is the one of a stable insertion sort, and a list
  of fewer than two entries is returned as it is. On a longer list with a \<^verbatim>\<open>nan\<close> key
  the comparisons are no order and the result depends on the steps of Python's sorting
  algorithm, which is not modelled: the value is then \<open>None\<close>.
\<close>

fun insort_distance :: "candidate \<Rightarrow> candidate list \<Rightarrow> candidate list" where
  "insort_distance c [] = [c]"
| "insort_distance c (d # ds) =
     (if fl_less (c_distance c) (c_distance d) then c # d # ds
      else d # insort_distance c ds)"

definition top_matches :: "candidate list \<Rightarrow> candidate list option" where
  "top_matches cs =
     (if 2 \<le> length cs \<and> (\<exists>c \<in> set cs. c_distance c = NaN) then None
      else Some (take 5 (foldl (\<lambda>acc c. insort_distance c acc) [] cs)))"

text \<open>
  The result of \<^verbatim>\<open>verify_face\<close>, one constructor for each \<^verbatim>\<open>return\<close>:
  \<open>VerifyNoStudents\<close> is
  \<^verbatim>\<open>{"success": True, "matched": False, "error": "No students registered in the system"}\<close>
  (line 156); \<open>VerifyMatched student confidence distance all_matches\<close> is the
  dictionary of line 196; \<open>VerifyNotMatched best_match confidence distance all_matches\<close>
  the one of line 205; \<open>VerifyError e\<close> is \<^verbatim>\<open>{"success": False, "error": str(e)}\<close>
  (line 217).
\<close>

datatype verify_result =
    VerifyNoStudents
  | VerifyMatched candidate npfloat npfloat "candidate list option"
  | VerifyNotMatched "candidate option" npfloat npfloat "candidate list option"
  | VerifyError exn

text \<open>The keys \<^verbatim>\<open>success\<close>, \<^verbatim>\<open>matched\<close> and \<^verbatim>\<open>error\<close> of that dictionary.\<close>

fun ver_success :: "verify_result \<Rightarrow> bool" where
  "ver_success (VerifyError e) = False"
| "ver_success _ = True"

fun ver_matched :: "verify_result \<Rightarrow> bool option" where
  "ver_matched VerifyNoStudents = Some False"
| "ver_matched (VerifyMatched s c d ms) = Some True"
| "ver_matched (VerifyNotMatched b c d ms) = Some False"
| "ver_matched (VerifyError e) = None"


text \<open>The part of \<^verbatim>\<open>verify_face\<close> after the loop (lines 191 to 213).\<close>

definition decide :: "face_service \<Rightarrow> scan \<Rightarrow> verify_result" where
  "decide svc st =
     (let confidence = one_minus (rounded (np svc)) (best_distance st) in
      case best_match st of
        None \<Rightarrow>
          VerifyNotMatched None confidence (best_distance st) (top_matches (all_distances st))
      | Some bm \<Rightarrow>
          if fl_le (best_distance st) (confidence_threshold svc)
          then VerifyMatched bm confidence (best_distance st) (top_matches (all_distances st))
          else VerifyNotMatched (Some bm) confidence (best_distance st)
                 (top_matches (all_distances st)))"

definition verify_face :: "face_service \<Rightarrow> mongo \<Rightarrow> string \<Rightarrow> verify_result \<times> mongo" where
  "verify_face svc db image_path =
     (case generate_embedding svc image_path of
        Inl e \<Rightarrow> (VerifyError e, db)
      | Inr input_embedding \<Rightarrow>
          (case get_all_embeddings db of
             (Inl e, db1) \<Rightarrow> (VerifyError e, db1)
           | (Inr all_students, db1) \<Rightarrow>
               if all_students = [] then (VerifyNoStudents, db1)
               else
                 (case compare_students svc input_embedding all_students scan_init of
                    Inl e \<Rightarrow> (VerifyError e, db1)
                  | Inr st \<Rightarrow> (decide svc st, db1))))"

subsection \<open>Attendance\<close>

text \<open>
  The result of \<^verbatim>\<open>mark_attendance\<close>: \<open>AttendanceError\<close> is
  \<^verbatim>\<open>{"success": False, "error": ...}\<close> (the failed verification handed on at line 232,
  or the dictionary of line 269); \<open>AttendanceMarked attendance_id student_id name
  confidence\<close> the dictionary of line 246; \<open>AttendanceNotMarked best_match confidence
  all_matches\<close> the one of line 258, whose entries are read with \<^verbatim>\<open>.get\<close>.
\<close>

datatype attendance_result =
    AttendanceError error_text
  | AttendanceMarked nat string string npfloat
  | AttendanceNotMarked "candidate option" "npfloat option" "candidate list option"

fun att_success :: "attendance_result \<Rightarrow> bool" where
  "att_success (AttendanceError t) = False"
| "att_success _ = True"

fun att_marked :: "attendance_result \<Rightarrow> bool option" where
  "att_marked (AttendanceError t) = None"
| "att_marked (AttendanceMarked i s n c) = Some True"
| "att_marked (AttendanceNotMarked b c ms) = Some False"

definition mark_attendance ::
  "face_service \<Rightarrow> mongo \<Rightarrow> string \<Rightarrow> string option \<Rightarrow> attendance_result \<times> mongo" where
  "mark_attendance svc db image_path timestamp =
     (case verify_face svc db image_path of
        (VerifyError e, db1) \<Rightarrow> (AttendanceError (Str e), db1)
      | (VerifyMatched student confidence distance ms, db1) \<Rightarrow>
          (case record_attendance db1 (c_student_id student) timestamp (Some image_path) of
             (Inl e, db2) \<Rightarrow> (AttendanceError (Str e), db2)
           | (Inr attendance_id, db2) \<Rightarrow>
               (AttendanceMarked attendance_id (c_student_id student) (c_name student)
                  confidence, db2))
      | (VerifyNotMatched bm confidence distance ms, db1) \<Rightarrow>
          (AttendanceNotMarked bm (Some confidence) ms, db1)
      | (VerifyNoStudents, db1) \<Rightarrow> (AttendanceNotMarked None None (Some []), db1))"

section \<open>Augmentation (\<^verbatim>\<open>improve_recognition\<close> in \<^verbatim>\<open>app.py\<close>)\<close>

text \<open>
  The endpoint from the point where the uploaded images are in their temporary files
  (\<open>temp_paths\<close>). \<open>ImproveOk added_embeddings failed_images\<close> is the dictionary
  returned on success; \<open>ImproveHTTPError\<close> is the status code of the
  \<^verbatim>\<open>HTTPException\<close> raised: 404 when the store reports no update, 400 when no embedding
  was extracted, 500 for any other exception.
\<close>

datatype improve_result =
    ImproveOk nat "failed_image list"
  | ImproveHTTPError nat

definition improve_recognition ::
  "face_service \<Rightarrow> mongo \<Rightarrow> string \<Rightarrow> string list \<Rightarrow> improve_result \<times> mongo" where
  "improve_recognition svc db student_id temp_paths =
     (let (new_embeddings, failed_images) = process_images svc temp_paths [] [] in
      if new_embeddings \<noteq> [] then
        (case update_student_embeddings db student_id new_embeddings temp_paths of
           (Inl e, db1) \<Rightarrow> (ImproveHTTPError 500, db1)
         | (Inr success, db1) \<Rightarrow>
             if success then (ImproveOk (length new_embeddings) failed_images, db1)
             else (ImproveHTTPError 404, db1))
      else (ImproveHTTPError 400, db))"

section \<open>Notions used in the statements\<close>

text \<open>The next \<open>n\<close> driver calls do not raise.\<close>

definition calls_ok :: "nat \<Rightarrow> mongo \<Rightarrow> bool" where
  "calls_ok n db = (\<forall>f \<in> set (take n (faults db)). \<not> f)"

text \<open>
  The embeddings of the images of a list that can be extracted, in the order of the
  list, and the images that cannot, each with the exception raised for it.
\<close>

definition successes :: "face_service \<Rightarrow> string list \<Rightarrow> embedding list" where
  "successes svc paths =
     List.map_filter (\<lambda>p. case generate_embedding svc p of Inr e \<Rightarrow> Some e | Inl x \<Rightarrow> None) paths"

definition failures :: "face_service \<Rightarrow> string list \<Rightarrow> failed_image list" where
  "failures svc paths =
     List.map_filter (\<lambda>p. case generate_embedding svc p of Inl x \<Rightarrow> Some (p, x) | Inr e \<Rightarrow> None) paths"

text \<open>
  The best match that a result of \<^verbatim>\<open>verify_face\<close> carries: the key \<^verbatim>\<open>student\<close> of a
  match, the key \<^verbatim>\<open>best_match\<close> otherwise.
\<close>

fun ver_best :: "verify_result \<Rightarrow> candidate option" where
  "ver_best (VerifyMatched s c d ms) = Some s"
| "ver_best (VerifyNotMatched b c d ms) = b"
| "ver_best _ = None"

text \<open>
  The value that the loop of \<^verbatim>\<open>verify_face\<close> has in \<^verbatim>\<open>min_student_distance\<close> for a
  student with the given stored embeddings (\<^verbatim>\<open>nan\<close> stands in where the code raises
  instead).
\<close>

definition student_minimum :: "face_service \<Rightarrow> embedding \<Rightarrow> embedding list \<Rightarrow> npfloat" where
  "student_minimum svc probe embs =
     (case student_distances svc probe embs [] of
        Inl e \<Rightarrow> NaN
      | Inr ds \<Rightarrow> (case py_min ds of Inl e \<Rightarrow> NaN | Inr m \<Rightarrow> m))"

section \<open>Example data\<close>

text \<open>
  An arithmetic without rounding. Where every intermediate result of a computation is a
  float, float64 arithmetic returns the same values. The threshold \<open>6 / 10\<close> of the
  services below stands for the float of the literal \<^verbatim>\<open>0.6\<close>.
\<close>

definition exact :: numeric where
  "exact =
     \<lparr> dot_value = (\<lambda>a b. Fin (sum_list (map2 (*) a b))),
       linalg_norm = (\<lambda>a. Fin (sqrt (sum_list (map (\<lambda>x. x * x) a)))),
       rounded = Fin \<rparr>"

text \<open>
  A service whose extractor knows four images, with the threshold of \<^verbatim>\<open>__init__\<close>;
  an empty database; a database whose only student has been soft-deleted.
\<close>

definition svc0 :: face_service where
  "svc0 =
     \<lparr> extractor =
         (\<lambda>p. if p = ''a.jpg'' then Inr [4, 3]
              else if p = ''b.jpg'' then Inr [3, 4]
              else if p = ''c.jpg'' then Inr [1, 0]
              else if p = ''probe.jpg'' then Inr [1, 0]
              else Inl ''Face could not be detected''),
       confidence_threshold = Fin (6 / 10), np = exact \<rparr>"

definition db0 :: mongo where
  "db0 = \<lparr> students = [], attendance = [], next_oid = 0, faults = [] \<rparr>"

definition db_deleted :: mongo where
  "db_deleted =
     \<lparr> students =
         [\<lparr> d_oid = 0, d_name = ''Ann'', d_student_id = ''s1'',
            d_embeddings = Some [[4, 3], [3, 4], [1, 0]], d_image_count = 3,
            d_image_paths = [''a.jpg'', ''b.jpg'', ''c.jpg''], d_is_active = False \<rparr>],
       attendance = [], next_oid = 1, faults = [] \<rparr>"

text \<open>
  Two active students with the same aggregate distance to the probe \<open>(1, 0)\<close>; a
  service and a student at distance \<open>0.6\<close> exactly; an active student without
  the key \<^verbatim>\<open>embeddings\<close>.
\<close>

definition db_two :: mongo where
  "db_two =
     \<lparr> students =
         [\<lparr> d_oid = 0, d_name = ''Alice'', d_student_id = ''alice'',
            d_embeddings = Some [[3, 4], [4, 3]], d_image_count = 2,
            d_image_paths = [], d_is_active = True \<rparr>,
          \<lparr> d_oid = 1, d_name = ''Bob'', d_student_id = ''bob'',
            d_embeddings = Some [[4, 3]], d_image_count = 1,
            d_image_paths = [], d_is_active = True \<rparr>],
       attendance = [], next_oid = 2, faults = [] \<rparr>"

definition svc4 :: face_service where
  "svc4 =
     \<lparr> extractor = (\<lambda>p. if p = ''probe.jpg'' then Inr [1, 0, 0, 0]
                        else Inl ''Face could not be detected''),
       confidence_threshold = Fin (6 / 10), np = exact \<rparr>"

definition db_carol :: mongo where
  "db_carol =
     \<lparr> students =
         [\<lparr> d_oid = 0, d_name = ''Carol'', d_student_id = ''carol'',
            d_embeddings = Some [[2, 4, 2, 1]], d_image_count = 1,
            d_image_paths = [], d_is_active = True \<rparr>],
       attendance = [], next_oid = 1, faults = [] \<rparr>"

definition db_empty_embeddings :: mongo where
  "db_empty_embeddings =
     \<lparr> students =
         [\<lparr> d_oid = 0, d_name = ''Alice'', d_student_id = ''alice'',
            d_embeddings = Some [[4, 3]], d_image_count = 1,
            d_image_paths = [], d_is_active = True \<rparr>,
          \<lparr> d_oid = 1, d_name = ''Eve'', d_student_id = ''eve'',
            d_embeddings = None, d_image_count = 0,
            d_image_paths = [], d_is_active = True \<rparr>],
       attendance = [], next_oid = 2, faults = [] \<rparr>"

text \<open>
  A student at distance \<open>1\<close> from the probe \<open>(1, 0)\<close>; the two students again, with a
  server whose second call fails.
\<close>

definition db_far :: mongo where
  "db_far =
     \<lparr> students =
         [\<lparr> d_oid = 0, d_name = ''Dan'', d_student_id = ''dan'',
            d_embeddings = Some [[0, 1]], d_image_count = 1,
            d_image_paths = [], d_is_active = True \<rparr>],
       attendance = [], next_oid = 1, faults = [] \<rparr>"

definition db_two_insert_fails :: mongo where
  "db_two_insert_fails = db_two\<lparr> faults := [False, True] \<rparr>"

text \<open>
  Two active students at the same distance \<open>0.5\<close> from the probe \<open>(1, 0, 0, 0)\<close>. A
  student whose first stored embedding has norm zero and whose second one is the probe
  \<open>(1, 0)\<close> itself, followed by a student at distance \<open>1\<close>. A student whose stored
  embedding has three components. A service whose extractor returns the zero vector.
  In all of them every intermediate result is a float.
\<close>

definition db_tie :: mongo where
  "db_tie =
     \<lparr> students =
         [\<lparr> d_oid = 0, d_name = ''Alice'', d_student_id = ''alice'',
            d_embeddings = Some [[0, 1, 0, 0], [1, 1, 1, 1]], d_image_count = 2,
            d_image_paths = [], d_is_active = True \<rparr>,
          \<lparr> d_oid = 1, d_name = ''Bob'', d_student_id = ''bob'',
            d_embeddings = Some [[2, 2, 2, 2]], d_image_count = 1,
            d_image_paths = [], d_is_active = True \<rparr>],
       attendance = [], next_oid = 2, faults = [] \<rparr>"

definition db_zed :: mongo where
  "db_zed =
     \<lparr> students =
         [\<lparr> d_oid = 0, d_name = ''Zed'', d_student_id = ''zed'',
            d_embeddings = Some [[0, 0], [1, 0]], d_image_count = 2,
            d_image_paths = [], d_is_active = True \<rparr>,
          \<lparr> d_oid = 1, d_name = ''Dan'', d_student_id = ''dan'',
            d_embeddings = Some [[0, 1]], d_image_count = 1,
            d_image_paths = [], d_is_active = True \<rparr>],
       attendance = [], next_oid = 2, faults = [] \<rparr>"

definition db_mismatch :: mongo where
  "db_mismatch =
     \<lparr> students =
         [\<lparr> d_oid = 0, d_name = ''Mia'', d_student_id = ''mia'',
            d_embeddings = Some [[1, 0, 0]], d_image_count = 1,
            d_image_paths = [], d_is_active = True \<rparr>],
       attendance = [], next_oid = 1, faults = [] \<rparr>"


section \<open>Properties of the distance\<close>

lemma sqrt_25: "sqrt 25 = 5"
  by (rule real_sqrt_unique) auto

lemma sqrt_16: "sqrt 16 = 4"
  by (rule real_sqrt_unique) auto

text \<open>
  Claim C3, as the code has it. \<^verbatim>\<open>cosine_distance\<close> has no guard: for two vectors of
  the same length it never raises, whatever their norms. If the dot product computed is
  zero and one of the norms computed is zero, as for a vector of zeros, the quotient is
  \<^verbatim>\<open>0/0\<close> or has a \<^verbatim>\<open>nan\<close> divisor, and the result is \<^verbatim>\<open>nan\<close>. Whenever the product of
  the norms computed is zero, the result is \<^verbatim>\<open>nan\<close> or an infinity, never a number and
  never an error. If dot product and norms are numbers and the product of the norms is
  a number that is not zero, the result is \<open>1 - (a\<cdot>b)/(\<parallel>a\<parallel>\<parallel>b\<parallel>)\<close> as float64 computes it:
  each operation applied to the rounded result of the one before.
\<close>

theorem cosine_distance_unguarded:
  assumes "length a = length b"
  shows "(\<exists>v. cosine_distance svc a b = Inr v)
       \<and> (dot_value (np svc) a b = Fin 0 \<and> rounded (np svc) 0 = Fin 0
            \<and> (linalg_norm (np svc) a = Fin 0 \<or> linalg_norm (np svc) b = Fin 0) \<longrightarrow>
          cosine_distance svc a b = Inr NaN)
       \<and> (fl_mul (rounded (np svc)) (linalg_norm (np svc) a) (linalg_norm (np svc) b) = Fin 0 \<longrightarrow>
          cosine_distance svc a b = Inr NaN \<or> cosine_distance svc a b = Inr PInf
          \<or> cosine_distance svc a b = Inr NInf)
       \<and> (dot_value (np svc) a b = Fin d \<and> linalg_norm (np svc) a = Fin p
            \<and> linalg_norm (np svc) b = Fin q \<and> rounded (np svc) (p * q) = Fin n \<and> n \<noteq> 0 \<longrightarrow>
          cosine_distance svc a b
            = Inr (one_minus (rounded (np svc)) (rounded (np svc) (d / n))))"
proof -
  let ?r = "rounded (np svc)"
  let ?d = "dot_value (np svc) a b"
  let ?x = "linalg_norm (np svc) a"
  let ?y = "linalg_norm (np svc) b"
  have cd: "cosine_distance svc a b = Inr (one_minus ?r (fl_div ?r ?d (fl_mul ?r ?x ?y)))"
    using assms by (simp add: cosine_distance_def np_dot_def)
  have c2: "?d = Fin 0 \<and> ?r 0 = Fin 0 \<and> (?x = Fin 0 \<or> ?y = Fin 0) \<longrightarrow>
            cosine_distance svc a b = Inr NaN"
  proof (intro impI, elim conjE)
    assume d: "?d = Fin 0" and r0: "?r 0 = Fin 0" and z: "?x = Fin 0 \<or> ?y = Fin 0"
    have "fl_mul ?r ?x ?y = Fin 0 \<or> fl_mul ?r ?x ?y = NaN"
      using z r0 by (cases ?x; cases ?y) auto
    then have "fl_div ?r ?d (fl_mul ?r ?x ?y) = NaN"
      using d by auto
    then show "cosine_distance svc a b = Inr NaN" by (simp add: cd)
  qed
  have c3: "fl_mul ?r ?x ?y = Fin 0 \<longrightarrow>
            cosine_distance svc a b = Inr NaN \<or> cosine_distance svc a b = Inr PInf
            \<or> cosine_distance svc a b = Inr NInf"
    by (cases ?d) (auto simp: cd)
  have c4: "?d = Fin d \<and> ?x = Fin p \<and> ?y = Fin q \<and> ?r (p * q) = Fin n \<and> n \<noteq> 0 \<longrightarrow>
            cosine_distance svc a b = Inr (one_minus ?r (?r (d / n)))"
    by (simp add: cd)
  show ?thesis using cd c2 c3 c4 by simp
qed

theorem cosine_distance_unguarded_witness:
  "cosine_distance svc0 [0, 0, 0] [0, 3, 4] = Inr NaN
   \<and> cosine_distance svc0 [1, 0, 0, 0] [1, 1, 1, 1] = Inr (Fin (1 / 2))"
  using cosine_distance_unguarded[of "[0, 0, 0]" "[0, 3, 4]" svc0]
        cosine_distance_unguarded[of "[1, 0, 0, 0]" "[1, 1, 1, 1]" svc0 1 1 2 2]
  by (simp add: svc0_def exact_def sqrt_25)

text \<open>
  Claim C3, as the specification states it, fails: the distance of the zero vector to
  \<open>(1, 0)\<close> is returned, and it is \<^verbatim>\<open>nan\<close>.
\<close>

theorem cosine_distance_zero_norm_counterexample:
  "cosine_distance svc0 [0, 0] [1, 0] = Inr NaN
   \<and> \<not> isl (cosine_distance svc0 [0, 0] [1, 0])
   \<and> cosine_distance svc0 [0, 0] [1, 0] \<noteq> Inr PInf"
  by (simp add: cosine_distance_def np_dot_def svc0_def exact_def)

section \<open>Properties of the store\<close>

lemma driver_call_ok:
  assumes "calls_ok (Suc n) db"
  shows "fst (driver_call db) = False"
    and "students (snd (driver_call db)) = students db"
    and "attendance (snd (driver_call db)) = attendance db"
    and "next_oid (snd (driver_call db)) = next_oid db"
    and "calls_ok n (snd (driver_call db))"
  using assms by (auto simp: calls_ok_def driver_call_def split: list.splits)

lemma driver_call_frame:
  "students (snd (driver_call db)) = students db"
  "attendance (snd (driver_call db)) = attendance db"
  "next_oid (snd (driver_call db)) = next_oid db"
  by (auto simp: driver_call_def split: list.splits)

lemma find_one_student_ok:
  assumes "calls_ok (Suc n) db"
  shows "find_one_student db sid =
           (Inr (find (\<lambda>d. d_student_id d = sid) (students db)), snd (driver_call db))"
  using driver_call_ok[OF assms]
  by (simp add: find_one_student_def split_def)

lemma find_one_student_frame:
  "students (snd (find_one_student db sid)) = students db"
  "attendance (snd (find_one_student db sid)) = attendance db"
  "next_oid (snd (find_one_student db sid)) = next_oid db"
  by (simp_all add: find_one_student_def split_def Let_def driver_call_frame)

lemma get_student_by_id_frame:
  "students (snd (get_student_by_id db sid)) = students db"
  "attendance (snd (get_student_by_id db sid)) = attendance db"
  "next_oid (snd (get_student_by_id db sid)) = next_oid db"
  using find_one_student_frame[of db sid]
  by (auto simp: get_student_by_id_def split: prod.splits sum.splits option.splits)

lemma get_student_by_id_ok:
  assumes "calls_ok (Suc n) db"
  shows "get_student_by_id db sid =
           (Inr (map_option deserialize_student (find (\<lambda>d. d_student_id d = sid) (students db))),
            snd (driver_call db))"
  by (simp add: get_student_by_id_def find_one_student_ok[OF assms] split: option.splits)

lemma get_student_by_id_found:
  assumes "\<exists>d \<in> set (students db). d_student_id d = sid"
  shows "fst (get_student_by_id db sid) \<noteq> Inr None"
proof -
  have "find (\<lambda>d. d_student_id d = sid) (students db) \<noteq> None"
    using assms by (auto simp: find_None_iff)
  then show ?thesis
    by (auto simp: get_student_by_id_def find_one_student_def split_def Let_def
                   driver_call_frame
             split: option.splits if_splits)
qed

lemma add_student_ok:
  assumes "calls_ok (Suc n) db" and "\<forall>d \<in> set (students db). d_student_id d \<noteq> sid"
  shows "add_student db name sid embs paths =
           (Inr (next_oid db),
            (snd (driver_call db))
              \<lparr> students := students db @
                  [\<lparr> d_oid = next_oid db, d_name = name, d_student_id = sid,
                     d_embeddings = Some embs, d_image_count = length embs,
                     d_image_paths = paths, d_is_active = True \<rparr>],
                next_oid := Suc (next_oid db) \<rparr>)"
  using driver_call_ok[OF assms(1)] assms(2)
  by (simp add: add_student_def split_def Let_def)

section \<open>Properties of registration\<close>

lemma process_images_acc:
  "process_images svc paths ok failed =
     (ok @ successes svc paths, failed @ failures svc paths)"
proof (induction paths arbitrary: ok failed)
  case Nil
  show ?case by (simp add: successes_def failures_def List.map_filter_simps)
next
  case (Cons p ps)
  show ?case
    by (cases "generate_embedding svc p")
       (simp_all add: Cons.IH successes_def failures_def List.map_filter_simps)
qed

lemma successes_failures_length:
  "length (successes svc paths) + length (failures svc paths) = length paths"
  by (induction paths)
     (auto simp: successes_def failures_def List.map_filter_simps split: sum.splits)

text \<open>
  Claim C6. The loop of \<^verbatim>\<open>register_student\<close> over the images has no failure of
  its own: every image of the list is attempted and adds one entry either to the
  embeddings (in the order of the list) or to the failed images (with the exception
  caught). Once the loop is reached, the failed images are part of the result returned,
  unless the insertion into the store raises, which is then the error reported.
\<close>

theorem registration_attempts_every_image:
  "process_images svc image_paths [] [] = (successes svc image_paths, failures svc image_paths)
   \<and> length (successes svc image_paths) + length (failures svc image_paths)
       = length image_paths
   \<and> (name \<noteq> [] \<and> student_id \<noteq> [] \<and> image_paths \<noteq> []
        \<and> get_student_by_id db student_id = (Inr None, db1) \<longrightarrow>
        reg_failed_images (fst (register_student svc db name student_id image_paths))
          = Some (failures svc image_paths)
        \<or> (\<exists>e. fst (add_student db1 name student_id (successes svc image_paths) image_paths)
                  = Inl e
               \<and> fst (register_student svc db name student_id image_paths)
                  = RegisterError (Str e)))"
  by (auto simp: process_images_acc successes_failures_length register_student_def
           split: prod.splits sum.splits)

theorem registration_attempts_every_image_witness:
  "process_images svc0 [''a.jpg'', ''x.jpg'', ''b.jpg'', ''y.jpg''] [] []
     = ([[4, 3], [3, 4]],
        [(''x.jpg'', ExtractionError ''Face could not be detected''),
         (''y.jpg'', ExtractionError ''Face could not be detected'')])
   \<and> reg_failed_images
        (fst (register_student svc0 db0 ''Ann'' ''s1'' [''a.jpg'', ''x.jpg'', ''b.jpg'', ''y.jpg'']))
     = Some [(''x.jpg'', ExtractionError ''Face could not be detected''),
             (''y.jpg'', ExtractionError ''Face could not be detected'')]"
  using registration_attempts_every_image
          [of svc0 "[''a.jpg'', ''x.jpg'', ''b.jpg'', ''y.jpg'']" "''Ann''" "''s1''" db0 db0]
  by (simp add: db0_def svc0_def successes_def failures_def List.map_filter_simps
                generate_embedding_def get_student_by_id_def find_one_student_def
                driver_call_def add_student_def)

text \<open>
  Claim C4, as the code has it. For a call with a name, an id and a list of images that
  are not empty, an id not in the store and a lookup that does not fail: with fewer
  than three embeddings extracted the result is the failure that reports their number
  and the failed images, and the collection of students is unchanged; with three or
  more, and an insertion that does not fail, the result is the success and one
  document holding all the extracted embeddings is added.
\<close>

theorem register_minimum_three:
  assumes "name \<noteq> []" and "student_id \<noteq> []" and "image_paths \<noteq> []"
      and "calls_ok 1 db"
      and "\<forall>d \<in> set (students db). d_student_id d \<noteq> student_id"
  shows "(length (successes svc image_paths) < 3 \<longrightarrow>
            fst (register_student svc db name student_id image_paths)
              = RegisterTooFew (OnlyProcessed (length (successes svc image_paths)))
                  (failures svc image_paths)
            \<and> students (snd (register_student svc db name student_id image_paths))
              = students db)
       \<and> (3 \<le> length (successes svc image_paths) \<and> calls_ok 2 db \<longrightarrow>
            fst (register_student svc db name student_id image_paths)
              = RegisterOk
                  \<lparr> r_student_id = student_id, r_name = name, r_db_id = next_oid db,
                    r_total_images = length image_paths,
                    r_successful_embeddings = length (successes svc image_paths),
                    r_failed_images = failures svc image_paths \<rparr>
            \<and> students (snd (register_student svc db name student_id image_paths))
              = students db @
                  [\<lparr> d_oid = next_oid db, d_name = name, d_student_id = student_id,
                     d_embeddings = Some (successes svc image_paths),
                     d_image_count = length (successes svc image_paths),
                     d_image_paths = image_paths, d_is_active = True \<rparr>])"
proof -
  let ?db1 = "snd (driver_call db)"
  have "find (\<lambda>d. d_student_id d = student_id) (students db) = None"
    using assms(5) by (auto simp: find_None_iff)
  then have g: "get_student_by_id db student_id = (Inr None, ?db1)"
    using get_student_by_id_ok[of 0 db student_id] assms(4) by simp
  have fr: "students ?db1 = students db" "next_oid ?db1 = next_oid db"
    by (simp_all add: driver_call_frame)
  have few: "length (successes svc image_paths) < 3 \<Longrightarrow>
      register_student svc db name student_id image_paths
        = (RegisterTooFew (OnlyProcessed (length (successes svc image_paths)))
             (failures svc image_paths), ?db1)"
    using assms(1-3) by (simp add: register_student_def g process_images_acc)
  have ok2: "calls_ok 2 db \<Longrightarrow> calls_ok 1 ?db1"
    using driver_call_ok(5)[of 1 db] by (simp add: numeral_2_eq_2)
  have nodup: "\<forall>d \<in> set (students ?db1). d_student_id d \<noteq> student_id"
    using assms(5) fr by simp
  have enough: "3 \<le> length (successes svc image_paths) \<Longrightarrow> calls_ok 2 db \<Longrightarrow>
      register_student svc db name student_id image_paths
        = (RegisterOk
             \<lparr> r_student_id = student_id, r_name = name, r_db_id = next_oid db,
               r_total_images = length image_paths,
               r_successful_embeddings = length (successes svc image_paths),
               r_failed_images = failures svc image_paths \<rparr>,
           (snd (driver_call ?db1))
             \<lparr> students := students db @
                 [\<lparr> d_oid = next_oid db, d_name = name, d_student_id = student_id,
                    d_embeddings = Some (successes svc image_paths),
                    d_image_count = length (successes svc image_paths),
                    d_image_paths = image_paths, d_is_active = True \<rparr>],
               next_oid := Suc (next_oid db) \<rparr>)"
    using assms(1-3) add_student_ok[OF _ nodup, of 0] ok2 fr
    by (simp add: register_student_def g process_images_acc)
  show ?thesis
    using few enough fr by simp
qed

theorem register_minimum_three_witness:
  "fst (register_student svc0 db0 ''Ann'' ''s1'' [''a.jpg'', ''x.jpg'', ''b.jpg''])
     = RegisterTooFew (OnlyProcessed 2)
         [(''x.jpg'', ExtractionError ''Face could not be detected'')]
   \<and> students (snd (register_student svc0 db0 ''Ann'' ''s1'' [''a.jpg'', ''x.jpg'', ''b.jpg''])) = []
   \<and> students (snd (register_student svc0 db0 ''Ann'' ''s1''
         [''a.jpg'', ''x.jpg'', ''b.jpg'', ''c.jpg'']))
     = [\<lparr> d_oid = 0, d_name = ''Ann'', d_student_id = ''s1'',
          d_embeddings = Some [[4, 3], [3, 4], [1, 0]], d_image_count = 3,
          d_image_paths = [''a.jpg'', ''x.jpg'', ''b.jpg'', ''c.jpg''], d_is_active = True \<rparr>]"
  using register_minimum_three[of "''Ann''" "''s1''" "[''a.jpg'', ''x.jpg'', ''b.jpg'']" db0 svc0]
        register_minimum_three[of "''Ann''" "''s1''" "[''a.jpg'', ''x.jpg'', ''b.jpg'', ''c.jpg'']" db0 svc0]
  by (simp add: db0_def svc0_def calls_ok_def successes_def failures_def
                List.map_filter_simps generate_embedding_def)

text \<open>
  Claim C4, as the specification states it, fails on the input checks that come first:
  with no image the failure reports neither a count nor failed images, and with an empty
  name three extractable images and a fresh id do not register.
\<close>

theorem register_minimum_three_counterexample:
  "fst (register_student svc0 db0 ''Ann'' ''s1'' []) = RegisterError ImageRequired
   \<and> reg_failed_images (fst (register_student svc0 db0 ''Ann'' ''s1'' [])) = None
   \<and> length (successes svc0 [''a.jpg'', ''b.jpg'', ''c.jpg'']) = 3
   \<and> fst (register_student svc0 db0 [] ''s1'' [''a.jpg'', ''b.jpg'', ''c.jpg''])
       = RegisterError NameAndIdRequired
   \<and> \<not> reg_success (fst (register_student svc0 db0 [] ''s1'' [''a.jpg'', ''b.jpg'', ''c.jpg'']))"
  by (simp add: register_student_def successes_def List.map_filter_simps
                generate_embedding_def svc0_def)

text \<open>
  Claim C5, as the code has it. A registration whose id is already in the store, active
  or not, fails, leaves both collections unchanged and does not depend on the extractor
  (no image is processed); the failure is the conflict when name, id and image list are
  not empty and the lookup does not fail.
\<close>

theorem register_conflict:
  assumes "\<exists>d \<in> set (students db). d_student_id d = student_id"
  shows "\<not> reg_success (fst (register_student svc db name student_id image_paths))
       \<and> students (snd (register_student svc db name student_id image_paths)) = students db
       \<and> attendance (snd (register_student svc db name student_id image_paths)) = attendance db
       \<and> register_student svc' db name student_id image_paths
           = register_student svc db name student_id image_paths
       \<and> (name \<noteq> [] \<and> student_id \<noteq> [] \<and> image_paths \<noteq> [] \<and> calls_ok 1 db \<longrightarrow>
            fst (register_student svc db name student_id image_paths)
              = RegisterError (AlreadyExists student_id))"
proof -
  obtain r db1 where g: "get_student_by_id db student_id = (r, db1)"
    by (cases "get_student_by_id db student_id")
  have nn: "r \<noteq> Inr None"
    using get_student_by_id_found[OF assms] g by simp
  have fr: "students db1 = students db" "attendance db1 = attendance db"
    using get_student_by_id_frame[of db student_id] g by simp_all
  have ok: "calls_ok 1 db \<Longrightarrow> \<exists>s. r = Inr (Some s)"
    using get_student_by_id_ok[of 0 db student_id] g nn by (cases r) auto
  show ?thesis
    using nn fr ok
    by (cases r) (auto simp: register_student_def g split: option.splits)
qed

theorem register_conflict_witness:
  "fst (register_student svc0 db_deleted ''Bob'' ''s1'' [''a.jpg''])
     = RegisterError (AlreadyExists ''s1'')
   \<and> students (snd (register_student svc0 db_deleted ''Bob'' ''s1'' [''a.jpg'']))
     = students db_deleted"
  using register_conflict[of db_deleted "''s1''" svc0 "''Bob''" "[''a.jpg'']" svc0]
  by (simp add: db_deleted_def calls_ok_def)

text \<open>
  Claim C5, as the specification states it, fails when the input checks reject the call
  first: with an empty image list the failure for an id of a soft-deleted student is the
  one of the image check, not the conflict.
\<close>

theorem register_conflict_counterexample:
  "fst (register_student svc0 db_deleted ''Bob'' ''s1'' []) = RegisterError ImageRequired
   \<and> fst (register_student svc0 db_deleted ''Bob'' ''s1'' [])
       \<noteq> RegisterError (AlreadyExists ''s1'')"
  by (simp add: register_student_def)

section \<open>Properties of verification\<close>

text \<open>On floats other than \<^verbatim>\<open>nan\<close> the comparisons are a total order.\<close>

lemma fl_le_refl: "x \<noteq> NaN \<Longrightarrow> fl_le x x"
  by (cases x) simp_all

lemma fl_le_trans: "fl_le x y \<Longrightarrow> fl_le y z \<Longrightarrow> fl_le x z"
  by (cases x; cases y; cases z) simp_all

lemma fl_less_le_trans: "fl_less x y \<Longrightarrow> fl_le y z \<Longrightarrow> fl_less x z"
  by (cases x; cases y; cases z) simp_all

lemma fl_less_imp_le: "fl_less x y \<Longrightarrow> fl_le x y"
  by (cases x; cases y) simp_all

lemma fl_not_less_le:
  "x \<noteq> NaN \<Longrightarrow> y \<noteq> NaN \<Longrightarrow> \<not> fl_less y x \<Longrightarrow> fl_le x y"
  by (cases x; cases y) simp_all

lemma fl_not_less_PInf: "x \<noteq> NaN \<Longrightarrow> \<not> fl_less x PInf \<Longrightarrow> x = PInf"
  by (cases x) simp_all

lemma fl_le_PInf: "fl_le PInf v \<Longrightarrow> v = PInf"
  by (cases v) simp_all

lemma fl_less_not_NaN: "fl_less x y \<Longrightarrow> x \<noteq> NaN"
  by (cases x) simp_all

lemma foldl_py_min:
  assumes "\<forall>x \<in> set (a # xs). x \<noteq> NaN"
  shows "foldl (\<lambda>m y. if fl_less y m then y else m) a xs \<in> set (a # xs)
       \<and> (\<forall>x \<in> set (a # xs). fl_le (foldl (\<lambda>m y. if fl_less y m then y else m) a xs) x)"
  using assms
proof (induction xs arbitrary: a)
  case Nil
  then show ?case by (simp add: fl_le_refl)
next
  case (Cons y ys)
  let ?f = "\<lambda>m y. if fl_less y m then y else m"
  let ?a = "if fl_less y a then y else a"
  have pa: "a \<noteq> NaN" and py: "y \<noteq> NaN" using Cons.prems by simp_all
  have "\<forall>x \<in> set (?a # ys). x \<noteq> NaN" using Cons.prems by simp
  from Cons.IH[OF this]
  have mem: "foldl ?f ?a ys \<in> set (?a # ys)"
    and low: "\<forall>x \<in> set (?a # ys). fl_le (foldl ?f ?a ys) x" by simp_all
  have la: "fl_le ?a a" using pa py by (simp add: fl_less_imp_le fl_le_refl)
  have ly: "fl_le ?a y" using pa py by (simp add: fl_not_less_le fl_le_refl)
  have m0: "fl_le (foldl ?f ?a ys) ?a" using low by simp
  have "fl_le (foldl ?f ?a ys) a" by (rule fl_le_trans[OF m0 la])
  moreover have "fl_le (foldl ?f ?a ys) y" by (rule fl_le_trans[OF m0 ly])
  moreover have "foldl ?f ?a ys \<in> set (a # y # ys)" using mem by auto
  ultimately show ?case using low by simp
qed

lemma py_min_lower:
  assumes "xs \<noteq> []" and "\<forall>x \<in> set xs. x \<noteq> NaN"
  shows "\<exists>m. py_min xs = Inr m \<and> m \<in> set xs \<and> (\<forall>x \<in> set xs. fl_le m x)"
proof -
  obtain a ys where xs: "xs = a # ys" using assms(1) by (cases xs) auto
  show ?thesis
    using foldl_py_min[of a ys] assms(2) unfolding xs by simp
qed

lemma student_distances_values:
  assumes "\<forall>e \<in> set embs. \<exists>v. cosine_distance svc probe e = Inr v"
  shows "student_distances svc probe embs acc =
           Inr (acc @ map (\<lambda>e. projr (cosine_distance svc probe e)) embs)"
  using assms by (induction embs arbitrary: acc) auto

lemma student_minimum_lower:
  assumes "embs \<noteq> []"
      and "\<forall>e \<in> set embs. \<exists>v. cosine_distance svc probe e = Inr v \<and> v \<noteq> NaN"
  shows "student_distances svc probe embs [] =
           Inr (map (\<lambda>e. projr (cosine_distance svc probe e)) embs)"
    and "py_min (map (\<lambda>e. projr (cosine_distance svc probe e)) embs)
           = Inr (student_minimum svc probe embs)"
    and "student_minimum svc probe embs \<noteq> NaN"
    and "\<exists>e \<in> set embs. cosine_distance svc probe e = Inr (student_minimum svc probe embs)"
    and "\<forall>e \<in> set embs. \<forall>v. cosine_distance svc probe e = Inr v \<longrightarrow>
           fl_le (student_minimum svc probe embs) v"
proof -
  let ?ds = "map (\<lambda>e. projr (cosine_distance svc probe e)) embs"
  have vals: "\<forall>e \<in> set embs. \<exists>v. cosine_distance svc probe e = Inr v"
    using assms(2) by blast
  show sd: "student_distances svc probe embs [] = Inr ?ds"
    using student_distances_values[OF vals, of "[]"] by simp
  have ne: "?ds \<noteq> []" using assms(1) by simp
  have proper: "\<forall>x \<in> set ?ds. x \<noteq> NaN"
    using assms(2) by fastforce
  from py_min_lower[OF ne proper] obtain m where
    m: "py_min ?ds = Inr m" "m \<in> set ?ds" "\<forall>x \<in> set ?ds. fl_le m x" by blast
  have sm: "student_minimum svc probe embs = m"
    by (simp add: student_minimum_def sd m(1))
  show "py_min ?ds = Inr (student_minimum svc probe embs)" by (simp add: sm m(1))
  show "student_minimum svc probe embs \<noteq> NaN" using proper m(2) sm by blast
  from m(2) obtain e where e: "e \<in> set embs" "m = projr (cosine_distance svc probe e)"
    by auto
  then have "cosine_distance svc probe e = Inr m" using vals by fastforce
  then show "\<exists>e \<in> set embs. cosine_distance svc probe e = Inr (student_minimum svc probe embs)"
    using e(1) sm by blast
  show "\<forall>e \<in> set embs. \<forall>v. cosine_distance svc probe e = Inr v \<longrightarrow>
           fl_le (student_minimum svc probe embs) v"
  proof (intro ballI allI impI)
    fix e v assume "e \<in> set embs" "cosine_distance svc probe e = Inr v"
    then have "v \<in> set ?ds" by force
    then show "fl_le (student_minimum svc probe embs) v" using m(3) sm by blast
  qed
qed

lemma compare_students_append:
  "compare_students svc p (xs @ ys) st =
     (case compare_students svc p xs st of
        Inl e \<Rightarrow> Inl e
      | Inr st1 \<Rightarrow> compare_students svc p ys st1)"
  by (induction xs arbitrary: st) (auto simp: Let_def split: sum.splits)

lemma compare_students_single:
  assumes "e_embeddings s \<noteq> []"
      and "\<forall>e \<in> set (e_embeddings s).
             \<exists>v. cosine_distance svc probe e = Inr v \<and> v \<noteq> NaN"
  shows "compare_students svc probe [s] st =
           Inr (if fl_less (student_minimum svc probe (e_embeddings s)) (best_distance st)
                then st\<lparr> all_distances := all_distances st @
                           [\<lparr> c_student_id = e_student_id s, c_name = e_name s,
                              c_distance = student_minimum svc probe (e_embeddings s) \<rparr>],
                         best_distance := student_minimum svc probe (e_embeddings s),
                         best_match :=
                           Some \<lparr> c_student_id = e_student_id s, c_name = e_name s,
                                  c_distance = student_minimum svc probe (e_embeddings s) \<rparr> \<rparr>
                else st\<lparr> all_distances := all_distances st @
                           [\<lparr> c_student_id = e_student_id s, c_name = e_name s,
                              c_distance = student_minimum svc probe (e_embeddings s) \<rparr>] \<rparr>)"
  using student_minimum_lower(1,2)[OF assms]
  by (simp add: Let_def)

lemma compare_students_first_minimum:
  assumes "\<forall>s \<in> set ss. e_embeddings s \<noteq> []
             \<and> (\<forall>e \<in> set (e_embeddings s).
                    \<exists>v. cosine_distance svc probe e = Inr v \<and> v \<noteq> NaN)"
  shows "\<exists>st. compare_students svc probe ss scan_init = Inr st
           \<and> ((best_match st = None \<and> best_distance st = PInf
               \<and> (\<forall>j<length ss. student_minimum svc probe (e_embeddings (ss ! j)) = PInf))
              \<or> (\<exists>i<length ss.
                     best_match st =
                       Some \<lparr> c_student_id = e_student_id (ss ! i), c_name = e_name (ss ! i),
                              c_distance = student_minimum svc probe (e_embeddings (ss ! i)) \<rparr>
                   \<and> best_distance st = student_minimum svc probe (e_embeddings (ss ! i))
                   \<and> fl_less (student_minimum svc probe (e_embeddings (ss ! i))) PInf
                   \<and> (\<forall>j<length ss. fl_le (student_minimum svc probe (e_embeddings (ss ! i)))
                                           (student_minimum svc probe (e_embeddings (ss ! j))))
                   \<and> (\<forall>j<i. fl_less (student_minimum svc probe (e_embeddings (ss ! i)))
                                   (student_minimum svc probe (e_embeddings (ss ! j))))))"
  using assms
proof (induction ss rule: rev_induct)
  case Nil
  show ?case by (simp add: scan_init_def)
next
  case (snoc x xs)
  let ?agg = "\<lambda>s. student_minimum svc probe (e_embeddings s)"
  let ?c = "\<lambda>s. \<lparr> c_student_id = e_student_id s, c_name = e_name s, c_distance = ?agg s \<rparr>"
  have good: "\<forall>s \<in> set (xs @ [x]). e_embeddings s \<noteq> []
             \<and> (\<forall>e \<in> set (e_embeddings s).
                    \<exists>v. cosine_distance svc probe e = Inr v \<and> v \<noteq> NaN)"
    using snoc.prems .
  have proper: "?agg s \<noteq> NaN" if "s \<in> set (xs @ [x])" for s
    using student_minimum_lower(3)[of "e_embeddings s" svc probe] good that by blast
  from snoc.IH good obtain st1 where
    run: "compare_students svc probe xs scan_init = Inr st1" and
    inv: "(best_match st1 = None \<and> best_distance st1 = PInf
             \<and> (\<forall>j<length xs. ?agg (xs ! j) = PInf))
          \<or> (\<exists>i<length xs. best_match st1 = Some (?c (xs ! i))
                 \<and> best_distance st1 = ?agg (xs ! i)
                 \<and> fl_less (?agg (xs ! i)) PInf
                 \<and> (\<forall>j<length xs. fl_le (?agg (xs ! i)) (?agg (xs ! j)))
                 \<and> (\<forall>j<i. fl_less (?agg (xs ! i)) (?agg (xs ! j))))"
    by auto
  have gx: "e_embeddings x \<noteq> []"
       "\<forall>e \<in> set (e_embeddings x).
          \<exists>v. cosine_distance svc probe e = Inr v \<and> v \<noteq> NaN"
    using good by simp_all
  define st2 where "st2 =
    (if fl_less (?agg x) (best_distance st1)
     then st1\<lparr> all_distances := all_distances st1 @ [?c x],
               best_distance := ?agg x, best_match := Some (?c x) \<rparr>
     else st1\<lparr> all_distances := all_distances st1 @ [?c x] \<rparr>)"
  have "compare_students svc probe (xs @ [x]) scan_init = compare_students svc probe [x] st1"
    by (simp add: compare_students_append run del: compare_students.simps)
  then have step: "compare_students svc probe (xs @ [x]) scan_init = Inr st2"
    using compare_students_single[OF gx, of st1] by (simp only: st2_def)
  have px: "?agg x \<noteq> NaN" using proper[of x] by simp
  let ?none = "best_match st2 = None \<and> best_distance st2 = PInf
             \<and> (\<forall>j<length (xs @ [x]). ?agg ((xs @ [x]) ! j) = PInf)"
  let ?some = "\<exists>i<length (xs @ [x]).
                 best_match st2 = Some (?c ((xs @ [x]) ! i))
               \<and> best_distance st2 = ?agg ((xs @ [x]) ! i)
               \<and> fl_less (?agg ((xs @ [x]) ! i)) PInf
               \<and> (\<forall>j<length (xs @ [x]). fl_le (?agg ((xs @ [x]) ! i)) (?agg ((xs @ [x]) ! j)))
               \<and> (\<forall>j<i. fl_less (?agg ((xs @ [x]) ! i)) (?agg ((xs @ [x]) ! j)))"
  have new_best: ?some
    if b2: "best_match st2 = Some (?c x)" "best_distance st2 = ?agg x"
    and fin: "fl_less (?agg x) PInf"
    and lo: "\<And>j. j < length xs \<Longrightarrow> fl_less (?agg x) (?agg (xs ! j))"
  proof -
    have "\<forall>j<length (xs @ [x]). fl_le (?agg x) (?agg ((xs @ [x]) ! j))"
    proof (intro allI impI)
      fix j assume "j < length (xs @ [x])"
      then consider "j < length xs" | "j = length xs" by fastforce
      then show "fl_le (?agg x) (?agg ((xs @ [x]) ! j))"
      proof cases
        case 1
        then show ?thesis using lo[of j] by (simp add: nth_append fl_less_imp_le)
      next
        case 2
        then show ?thesis using px by (simp add: fl_le_refl)
      qed
    qed
    moreover have "\<forall>j<length xs. fl_less (?agg x) (?agg ((xs @ [x]) ! j))"
      using lo by (simp add: nth_append)
    ultimately show ?thesis
      using b2 fin by (intro exI[of _ "length xs"]) simp
  qed
  have best: "?none \<or> ?some"
    using inv
  proof (elim disjE conjE exE)
    assume bm: "best_match st1 = None" and bd: "best_distance st1 = PInf"
       and allinf: "\<forall>j<length xs. ?agg (xs ! j) = PInf"
    show ?thesis
    proof (cases "fl_less (?agg x) PInf")
      case True
      then have b2: "best_match st2 = Some (?c x)" "best_distance st2 = ?agg x"
        by (simp_all add: st2_def bd)
      have "fl_less (?agg x) (?agg (xs ! j))" if "j < length xs" for j
        using allinf that True by simp
      from new_best[OF b2 True this] show ?thesis by blast
    next
      case False
      then have xinf: "?agg x = PInf" using px by (rule fl_not_less_PInf[rotated])
      have "best_match st2 = None" "best_distance st2 = PInf"
        using False by (simp_all add: st2_def bd bm)
      moreover have "\<forall>j<length (xs @ [x]). ?agg ((xs @ [x]) ! j) = PInf"
      proof (intro allI impI)
        fix j assume "j < length (xs @ [x])"
        then consider "j < length xs" | "j = length xs" by fastforce
        then show "?agg ((xs @ [x]) ! j) = PInf"
        proof cases
          case 1
          then show ?thesis using allinf by (simp add: nth_append)
        next
          case 2
          then show ?thesis using xinf by simp
        qed
      qed
      ultimately show ?thesis by blast
    qed
  next
    fix i
    assume i: "i < length xs"
      and bm: "best_match st1 = Some (?c (xs ! i))"
      and bd: "best_distance st1 = ?agg (xs ! i)"
      and fi: "fl_less (?agg (xs ! i)) PInf"
      and le: "\<forall>j<length xs. fl_le (?agg (xs ! i)) (?agg (xs ! j))"
      and lt: "\<forall>j<i. fl_less (?agg (xs ! i)) (?agg (xs ! j))"
    have pi: "?agg (xs ! i) \<noteq> NaN" using fi by (rule fl_less_not_NaN)
    show ?thesis
    proof (cases "fl_less (?agg x) (?agg (xs ! i))")
      case True
      then have b2: "best_match st2 = Some (?c x)" "best_distance st2 = ?agg x"
        by (simp_all add: st2_def bd)
      have fin: "fl_less (?agg x) PInf"
        using fl_less_le_trans[OF True fl_less_imp_le[OF fi]] .
      have "fl_less (?agg x) (?agg (xs ! j))" if "j < length xs" for j
        using fl_less_le_trans[OF True] le that by blast
      from new_best[OF b2 fin this] show ?thesis by blast
    next
      case False
      then have b2: "best_match st2 = Some (?c (xs ! i))"
                    "best_distance st2 = ?agg (xs ! i)"
        by (simp_all add: st2_def bd bm)
      have xi: "fl_le (?agg (xs ! i)) (?agg x)"
        by (rule fl_not_less_le[OF pi px False])
      have "\<forall>j<length (xs @ [x]). fl_le (?agg (xs ! i)) (?agg ((xs @ [x]) ! j))"
      proof (intro allI impI)
        fix j assume "j < length (xs @ [x])"
        then consider "j < length xs" | "j = length xs" by fastforce
        then show "fl_le (?agg (xs ! i)) (?agg ((xs @ [x]) ! j))"
        proof cases
          case 1
          then show ?thesis using le by (simp add: nth_append)
        next
          case 2
          then show ?thesis using xi by simp
        qed
      qed
      moreover have "\<forall>j<i. fl_less (?agg (xs ! i)) (?agg ((xs @ [x]) ! j))"
        using lt i by (simp add: nth_append)
      ultimately have ?some
        using b2 i fi by (intro exI[of _ i]) (simp add: nth_append)
      then show ?thesis by blast
    qed
  qed
  show ?case
    using step best by (intro exI[of _ st2]) simp
qed

text \<open>
  Claim C1, as the code has it. Let the probe be extracted and the active students be
  fetched, at least one, each with at least one stored embedding, and let every
  distance from the probe to a stored embedding be computed without an exception and
  not be \<^verbatim>\<open>nan\<close>. Then either every such distance is \<^verbatim>\<open>+inf\<close> and \<^verbatim>\<open>verify_face\<close> has
  no best match (the running best starts at \<^verbatim>\<open>+inf\<close> and is replaced on strict \<open><\<close>
  only), or its best match is the student at some position \<open>i\<close> of the list, with a
  distance \<open>m\<close> below \<^verbatim>\<open>+inf\<close> that is the distance computed for one of its stored
  embeddings, is at most the distance computed for every stored embedding of every
  student, and is strictly less than the distance computed for every stored embedding
  of every student before \<open>i\<close>. So \<open>m\<close> is the aggregate distance of \<open>i\<close>, it is
  globally minimal, and of several students at the minimum the first in iteration order
  is selected. The distances are the floats that the code computes, whatever the
  rounding.
\<close>

theorem verify_selects_first_minimum:
  assumes "generate_embedding svc image_path = Inr probe"
      and "get_all_embeddings db = (Inr all_students, db1)"
      and "all_students \<noteq> []"
      and "\<forall>s \<in> set all_students. e_embeddings s \<noteq> []
             \<and> (\<forall>e \<in> set (e_embeddings s).
                    \<exists>v. cosine_distance svc probe e = Inr v \<and> v \<noteq> NaN)"
  shows "(ver_best (fst (verify_face svc db image_path)) = None
          \<and> (\<forall>s \<in> set all_students. \<forall>e \<in> set (e_embeddings s).
                 cosine_distance svc probe e = Inr PInf))
       \<or> (\<exists>i<length all_students. \<exists>m.
             ver_best (fst (verify_face svc db image_path))
               = Some \<lparr> c_student_id = e_student_id (all_students ! i),
                        c_name = e_name (all_students ! i), c_distance = m \<rparr>
           \<and> fl_less m PInf
           \<and> (\<exists>e \<in> set (e_embeddings (all_students ! i)). cosine_distance svc probe e = Inr m)
           \<and> (\<forall>j<length all_students. \<forall>e \<in> set (e_embeddings (all_students ! j)).
                  \<forall>v. cosine_distance svc probe e = Inr v \<longrightarrow> fl_le m v)
           \<and> (\<forall>j<i. \<forall>e \<in> set (e_embeddings (all_students ! j)).
                  \<forall>v. cosine_distance svc probe e = Inr v \<longrightarrow> fl_less m v))"
proof -
  let ?agg = "\<lambda>s. student_minimum svc probe (e_embeddings s)"
  have good: "e_embeddings (all_students ! j) \<noteq> []"
      "\<forall>e \<in> set (e_embeddings (all_students ! j)).
          \<exists>v. cosine_distance svc probe e = Inr v \<and> v \<noteq> NaN"
    if "j < length all_students" for j
    using assms(4) nth_mem[OF that] by blast+
  have low: "\<forall>e \<in> set (e_embeddings (all_students ! j)).
               \<forall>v. cosine_distance svc probe e = Inr v \<longrightarrow> fl_le (?agg (all_students ! j)) v"
    if "j < length all_students" for j
    using student_minimum_lower(5)[OF good[OF that]] .
  from compare_students_first_minimum[OF assms(4)]
  obtain st where
    run: "compare_students svc probe all_students scan_init = Inr st" and
    inv: "(best_match st = None \<and> best_distance st = PInf
             \<and> (\<forall>j<length all_students. ?agg (all_students ! j) = PInf))
          \<or> (\<exists>i<length all_students.
                 best_match st =
                   Some \<lparr> c_student_id = e_student_id (all_students ! i),
                          c_name = e_name (all_students ! i),
                          c_distance = ?agg (all_students ! i) \<rparr>
               \<and> best_distance st = ?agg (all_students ! i)
               \<and> fl_less (?agg (all_students ! i)) PInf
               \<and> (\<forall>j<length all_students.
                      fl_le (?agg (all_students ! i)) (?agg (all_students ! j)))
               \<and> (\<forall>j<i. fl_less (?agg (all_students ! i)) (?agg (all_students ! j))))"
    by blast
  have "ver_best (decide svc st) = best_match st"
    by (simp add: decide_def Let_def split: option.splits)
  then have vb: "ver_best (fst (verify_face svc db image_path)) = best_match st"
    using assms(1-3) run by (simp add: verify_face_def)
  from inv show ?thesis
  proof (elim disjE conjE exE)
    assume bm: "best_match st = None"
       and allinf: "\<forall>j<length all_students. ?agg (all_students ! j) = PInf"
    have "\<forall>s \<in> set all_students. \<forall>e \<in> set (e_embeddings s).
            cosine_distance svc probe e = Inr PInf"
    proof (intro ballI)
      fix s e assume s: "s \<in> set all_students" and e: "e \<in> set (e_embeddings s)"
      from s obtain j where j: "j < length all_students" "all_students ! j = s"
        by (auto simp: in_set_conv_nth)
      from assms(4) s e obtain v where v: "cosine_distance svc probe e = Inr v"
        by blast
      have "fl_le PInf v" using low[OF j(1)] allinf j e v by auto
      then have "v = PInf" by (rule fl_le_PInf)
      then show "cosine_distance svc probe e = Inr PInf" using v by simp
    qed
    then show ?thesis using vb bm by simp
  next
    fix i
    assume i: "i < length all_students"
      and bm: "best_match st =
                 Some \<lparr> c_student_id = e_student_id (all_students ! i),
                        c_name = e_name (all_students ! i),
                        c_distance = ?agg (all_students ! i) \<rparr>"
      and fi: "fl_less (?agg (all_students ! i)) PInf"
      and le: "\<forall>j<length all_students.
                 fl_le (?agg (all_students ! i)) (?agg (all_students ! j))"
      and lt: "\<forall>j<i. fl_less (?agg (all_students ! i)) (?agg (all_students ! j))"
    have att: "\<exists>e \<in> set (e_embeddings (all_students ! i)).
                 cosine_distance svc probe e = Inr (?agg (all_students ! i))"
      using student_minimum_lower(4)[OF good[OF i]] .
    have glob: "\<forall>j<length all_students. \<forall>e \<in> set (e_embeddings (all_students ! j)).
                  \<forall>v. cosine_distance svc probe e = Inr v \<longrightarrow>
                    fl_le (?agg (all_students ! i)) v"
      using le low fl_le_trans by blast
    have first: "\<forall>j<i. \<forall>e \<in> set (e_embeddings (all_students ! j)).
                  \<forall>v. cosine_distance svc probe e = Inr v \<longrightarrow>
                    fl_less (?agg (all_students ! i)) v"
    proof (intro allI impI ballI)
      fix j e v
      assume j: "j < i" and e: "e \<in> set (e_embeddings (all_students ! j))"
         and v: "cosine_distance svc probe e = Inr v"
      have "j < length all_students" using j i by simp
      then have "fl_le (?agg (all_students ! j)) v" using low e v by blast
      moreover have "fl_less (?agg (all_students ! i)) (?agg (all_students ! j))"
        using lt j by blast
      ultimately show "fl_less (?agg (all_students ! i)) v"
        using fl_less_le_trans by blast
    qed
    have "\<exists>i<length all_students. \<exists>m.
             ver_best (fst (verify_face svc db image_path))
               = Some \<lparr> c_student_id = e_student_id (all_students ! i),
                        c_name = e_name (all_students ! i), c_distance = m \<rparr>
           \<and> fl_less m PInf
           \<and> (\<exists>e \<in> set (e_embeddings (all_students ! i)). cosine_distance svc probe e = Inr m)
           \<and> (\<forall>j<length all_students. \<forall>e \<in> set (e_embeddings (all_students ! j)).
                  \<forall>v. cosine_distance svc probe e = Inr v \<longrightarrow> fl_le m v)
           \<and> (\<forall>j<i. \<forall>e \<in> set (e_embeddings (all_students ! j)).
                  \<forall>v. cosine_distance svc probe e = Inr v \<longrightarrow> fl_less m v)"
      using i vb bm fi att glob first by (intro exI[of _ i] exI[of _ "?agg (all_students ! i)"]) simp
    then show ?thesis by blast
  qed
qed

lemma get_all_embeddings_db_tie:
  "get_all_embeddings db_tie =
     (Inr [\<lparr> e_student_id = ''alice'', e_name = ''Alice'',
             e_embeddings = [[0, 1, 0, 0], [1, 1, 1, 1]] \<rparr>,
           \<lparr> e_student_id = ''bob'', e_name = ''Bob'', e_embeddings = [[2, 2, 2, 2]] \<rparr>],
      db_tie)"
  by (simp add: get_all_embeddings_def db_tie_def driver_call_def deserialize_student_def)

lemma cosine_distance_svc4:
  "cosine_distance svc4 [1, 0, 0, 0] [0, 1, 0, 0] = Inr (Fin 1)"
  "cosine_distance svc4 [1, 0, 0, 0] [1, 1, 1, 1] = Inr (Fin (1 / 2))"
  "cosine_distance svc4 [1, 0, 0, 0] [2, 2, 2, 2] = Inr (Fin (1 / 2))"
  by (simp_all add: cosine_distance_def np_dot_def svc4_def exact_def sqrt_16)

theorem verify_selects_first_minimum_witness:
  "ver_best (fst (verify_face svc4 db_tie ''probe.jpg''))
     = Some \<lparr> c_student_id = ''alice'', c_name = ''Alice'', c_distance = Fin (1 / 2) \<rparr>"
proof -
  let ?ss = "[\<lparr> e_student_id = ''alice'', e_name = ''Alice'',
                 e_embeddings = [[0, 1, 0, 0], [1, 1, 1, 1]] \<rparr>,
              \<lparr> e_student_id = ''bob'', e_name = ''Bob'', e_embeddings = [[2, 2, 2, 2]] \<rparr>]"
  let ?cd = "cosine_distance svc4 [1, 0, 0, 0]"
  have h1: "generate_embedding svc4 ''probe.jpg'' = Inr [1, 0, 0, 0]"
    by (simp add: generate_embedding_def svc4_def)
  have h3: "?ss \<noteq> []" by simp
  have h4: "\<forall>s \<in> set ?ss. e_embeddings s \<noteq> []
             \<and> (\<forall>e \<in> set (e_embeddings s). \<exists>v. ?cd e = Inr v \<and> v \<noteq> NaN)"
    by (simp add: cosine_distance_svc4)
  have notinf: "\<not> (\<forall>s \<in> set ?ss. \<forall>e \<in> set (e_embeddings s). ?cd e = Inr PInf)"
    by (simp add: cosine_distance_svc4)
  from verify_selects_first_minimum[OF h1 get_all_embeddings_db_tie h3 h4] notinf
  obtain i m where i: "i < length ?ss" and
    b: "ver_best (fst (verify_face svc4 db_tie ''probe.jpg''))
          = Some \<lparr> c_student_id = e_student_id (?ss ! i), c_name = e_name (?ss ! i),
                   c_distance = m \<rparr>" and
    att: "\<exists>e \<in> set (e_embeddings (?ss ! i)). ?cd e = Inr m" and
    glob: "\<forall>j<length ?ss. \<forall>e \<in> set (e_embeddings (?ss ! j)).
             \<forall>v. ?cd e = Inr v \<longrightarrow> fl_le m v" and
    first: "\<forall>j<i. \<forall>e \<in> set (e_embeddings (?ss ! j)).
             \<forall>v. ?cd e = Inr v \<longrightarrow> fl_less m v"
    by blast
  have bob: "fl_le m (Fin (1 / 2))"
    using glob[rule_format, of 1 "[2, 2, 2, 2]" "Fin (1 / 2)"]
    by (simp add: cosine_distance_svc4)
  have "i = 0 \<or> i = 1" using i by auto
  then have i0: "i = 0"
  proof
    assume "i = 0" then show ?thesis .
  next
    assume i1: "i = 1"
    then have "m = Fin (1 / 2)" using att by (simp add: cosine_distance_svc4)
    moreover have "fl_less m (Fin (1 / 2))"
      using first[rule_format, of 0 "[1, 1, 1, 1]" "Fin (1 / 2)"] i1
      by (simp add: cosine_distance_svc4)
    ultimately show ?thesis by simp
  qed
  have "m = Fin 1 \<or> m = Fin (1 / 2)"
    using att i0 by (auto simp: cosine_distance_svc4)
  then have "m = Fin (1 / 2)" using bob by auto
  then show ?thesis using b i0 by simp
qed

text \<open>
  Claim C1, as the specification states it, fails. With a first student whose stored
  embeddings are the zero vector and the probe itself, \<^verbatim>\<open>min\<close> keeps the \<^verbatim>\<open>nan\<close> of the
  zero vector, and the best match is the second student, at distance \<open>1\<close>, although
  an embedding of the first is at distance \<open>0\<close>. With a student without stored
  embeddings, or with one whose embedding has another length, there is no best match
  but a failure.
\<close>

theorem verify_selects_first_minimum_counterexample:
  "ver_best (fst (verify_face svc0 db_zed ''probe.jpg''))
     = Some \<lparr> c_student_id = ''dan'', c_name = ''Dan'', c_distance = Fin 1 \<rparr>
   \<and> cosine_distance svc0 [1, 0] [1, 0] = Inr (Fin 0)
   \<and> fst (verify_face svc0 db_empty_embeddings ''probe.jpg'') = VerifyError MinEmptySequence
   \<and> fst (verify_face svc0 db_mismatch ''probe.jpg'') = VerifyError ShapeMismatch"
  by (simp add: verify_face_def generate_embedding_def svc0_def get_all_embeddings_def
        db_zed_def db_empty_embeddings_def db_mismatch_def driver_call_def
        deserialize_student_def cosine_distance_def np_dot_def exact_def sqrt_25
        scan_init_def Let_def decide_def top_matches_def)

lemma compare_students_best_invariant:
  assumes "compare_students svc probe ss st = Inr st'"
      and "(best_match st = None \<and> best_distance st = PInf)
           \<or> (\<exists>bm. best_match st = Some bm \<and> c_distance bm = best_distance st)"
  shows "(best_match st' = None \<and> best_distance st' = PInf)
         \<or> (\<exists>bm. best_match st' = Some bm \<and> c_distance bm = best_distance st')"
  using assms
proof (induction ss arbitrary: st)
  case Nil
  then show ?case by simp
next
  case (Cons s ss)
  from Cons.prems(1) obtain ds m where
    ds: "student_distances svc probe (e_embeddings s) [] = Inr ds" and
    m: "py_min ds = Inr m"
    by (auto split: sum.splits)
  define c where "c = \<lparr> c_student_id = e_student_id s, c_name = e_name s, c_distance = m \<rparr>"
  define st2 where "st2 =
    (if fl_less m (best_distance st)
     then st\<lparr> all_distances := all_distances st @ [c], best_distance := m,
              best_match := Some c \<rparr>
     else st\<lparr> all_distances := all_distances st @ [c] \<rparr>)"
  have run: "compare_students svc probe ss st2 = Inr st'"
    using Cons.prems(1) by (simp add: ds m Let_def st2_def c_def split: if_splits)
  have "(best_match st2 = None \<and> best_distance st2 = PInf)
        \<or> (\<exists>bm. best_match st2 = Some bm \<and> c_distance bm = best_distance st2)"
    using Cons.prems(2) by (auto simp: st2_def c_def)
  then show ?case by (rule Cons.IH[OF run])
qed

text \<open>
  Claim C2. When the loop ends with a best distance equal to the threshold of the
  service, a number \<open>t\<close>, the result of \<^verbatim>\<open>verify_face\<close> is the match: it carries the
  best match, whose distance is \<open>t\<close>, and as confidence the float that \<open>1 - t\<close> gives.
\<close>

theorem verify_threshold_inclusive:
  assumes "generate_embedding svc image_path = Inr probe"
      and "get_all_embeddings db = (Inr all_students, db1)"
      and "all_students \<noteq> []"
      and "compare_students svc probe all_students scan_init = Inr st"
      and "best_distance st = Fin t"
      and "confidence_threshold svc = Fin t"
  shows "\<exists>bm. best_match st = Some bm \<and> c_distance bm = Fin t
           \<and> verify_face svc db image_path
               = (VerifyMatched bm (rounded (np svc) (1 - t)) (Fin t) (top_matches (all_distances st)), db1)"
proof -
  have "(best_match st = None \<and> best_distance st = PInf)
        \<or> (\<exists>bm. best_match st = Some bm \<and> c_distance bm = best_distance st)"
    by (rule compare_students_best_invariant[OF assms(4)]) (simp add: scan_init_def)
  then obtain bm where bm: "best_match st = Some bm" "c_distance bm = Fin t"
    using assms(5) by auto
  have "decide svc st = VerifyMatched bm (rounded (np svc) (1 - t)) (Fin t) (top_matches (all_distances st))"
    by (simp add: decide_def bm assms(5,6) Let_def)
  then show ?thesis
    using assms(1-4) bm by (simp add: verify_face_def)
qed

theorem verify_threshold_inclusive_witness:
  "verify_face svc4 db_carol ''probe.jpg''
     = (VerifyMatched
          \<lparr> c_student_id = ''carol'', c_name = ''Carol'', c_distance = Fin (6 / 10) \<rparr>
          (Fin (4 / 10)) (Fin (6 / 10))
          (Some [\<lparr> c_student_id = ''carol'', c_name = ''Carol'', c_distance = Fin (6 / 10) \<rparr>]),
        db_carol)"
proof -
  let ?c = "\<lparr> c_student_id = ''carol'', c_name = ''Carol'', c_distance = Fin (6 / 10) \<rparr>"
  let ?st = "\<lparr> best_match = Some ?c, best_distance = Fin (6 / 10), all_distances = [?c] \<rparr>"
  have h1: "generate_embedding svc4 ''probe.jpg'' = Inr [1, 0, 0, 0]"
    by (simp add: generate_embedding_def svc4_def)
  have h2: "get_all_embeddings db_carol =
              (Inr [\<lparr> e_student_id = ''carol'', e_name = ''Carol'',
                      e_embeddings = [[2, 4, 2, 1]] \<rparr>], db_carol)"
    by (simp add: get_all_embeddings_def db_carol_def driver_call_def deserialize_student_def)
  have h4: "compare_students svc4 [1, 0, 0, 0]
              [\<lparr> e_student_id = ''carol'', e_name = ''Carol'', e_embeddings = [[2, 4, 2, 1]] \<rparr>]
              scan_init = Inr ?st"
    by (simp add: cosine_distance_def np_dot_def svc4_def exact_def sqrt_25
                  scan_init_def Let_def)
  have h5: "best_distance ?st = Fin (6 / 10)" by simp
  have h6: "confidence_threshold svc4 = Fin (6 / 10)" by (simp add: svc4_def)
  from verify_threshold_inclusive[OF h1 h2 _ h4 h5 h6]
  show ?thesis by (simp add: top_matches_def svc4_def exact_def)
qed

lemma get_all_embeddings_ok:
  assumes "calls_ok (Suc n) db"
  shows "get_all_embeddings db =
           (Inr (map (\<lambda>d. \<lparr> e_student_id = d_student_id d, e_name = d_name d,
                              e_embeddings = s_embeddings (deserialize_student d) \<rparr>)
                     (filter d_is_active (students db))),
            snd (driver_call db))"
  using driver_call_ok[OF assms]
  by (simp add: get_all_embeddings_def split_def Let_def deserialize_student_def)

lemma get_all_embeddings_result:
  assumes "get_all_embeddings db = (Inr all_students, db1)"
  shows "all_students =
           map (\<lambda>d. \<lparr> e_student_id = d_student_id d, e_name = d_name d,
                         e_embeddings = s_embeddings (deserialize_student d) \<rparr>)
               (filter d_is_active (students db))"
  using assms
  by (auto simp: get_all_embeddings_def split_def Let_def deserialize_student_def
                 driver_call_frame split: if_splits)


lemma compare_students_empty_embeddings:
  assumes "\<exists>s \<in> set ss. e_embeddings s = []"
  shows "\<exists>e. compare_students svc probe ss st = Inl e"
  using assms
proof (induction ss arbitrary: st)
  case Nil
  then show ?case by simp
next
  case (Cons s ss)
  show ?case
  proof (cases "e_embeddings s = []")
    case True
    then show ?thesis by simp
  next
    case False
    then have "\<exists>s \<in> set ss. e_embeddings s = []" using Cons.prems by auto
    then show ?thesis
      using Cons.IH by (auto simp: Let_def split: sum.splits)
  qed
qed

lemma student_distances_same_length:
  assumes "\<forall>e \<in> set embs. length e = length probe"
  shows "\<exists>ds. student_distances svc probe embs acc = Inr ds"
  using assms
  by (induction embs arbitrary: acc) (auto simp: cosine_distance_def np_dot_def)

lemma compare_students_only_min_raises:
  assumes "\<forall>s \<in> set ss. \<forall>e \<in> set (e_embeddings s). length e = length probe"
      and "compare_students svc probe ss st = Inl e"
  shows "e = MinEmptySequence"
  using assms
proof (induction ss arbitrary: st)
  case Nil
  then show ?case by simp
next
  case (Cons s ss)
  obtain ds where ds: "student_distances svc probe (e_embeddings s) [] = Inr ds"
    using student_distances_same_length[of "e_embeddings s" probe svc "[]"] Cons.prems(1) by auto
  show ?case
  proof (cases ds)
    case Nil
    then show ?thesis using Cons.prems(2) ds by simp
  next
    case (Cons x xs)
    then show ?thesis
      using Cons.prems Cons.IH ds
      by (auto simp: Let_def split: if_splits)
  qed
qed

text \<open>
  Claim C10. If an active student has no stored embedding (the key absent or the list
  empty), \<^verbatim>\<open>verify_face\<close> returns a failure, whatever the other inputs: \<^verbatim>\<open>success\<close>
  is false and there is no decision. When the probe is extracted, the fetch does not
  fail and all stored embeddings have the length of the probe, the exception reported
  is the one of \<^verbatim>\<open>min\<close> on an empty list.
\<close>

theorem verify_fails_on_empty_embeddings:
  assumes "\<exists>d \<in> set (students db). d_is_active d
             \<and> (d_embeddings d = None \<or> d_embeddings d = Some [])"
  shows "(\<exists>e. fst (verify_face svc db image_path) = VerifyError e)
       \<and> \<not> ver_success (fst (verify_face svc db image_path))
       \<and> ver_matched (fst (verify_face svc db image_path)) = None
       \<and> (generate_embedding svc image_path = Inr probe \<and> calls_ok 1 db
            \<and> (\<forall>d \<in> set (students db). d_is_active d \<longrightarrow>
                 (\<forall>e \<in> set (s_embeddings (deserialize_student d)). length e = length probe))
            \<longrightarrow> fst (verify_face svc db image_path) = VerifyError MinEmptySequence)"
proof -
  let ?all = "map (\<lambda>d. \<lparr> e_student_id = d_student_id d, e_name = d_name d,
                         e_embeddings = s_embeddings (deserialize_student d) \<rparr>)
               (filter d_is_active (students db))"
  have emp: "\<exists>s \<in> set ?all. e_embeddings s = []"
    using assms by (auto simp: deserialize_student_def)
  have ne: "?all \<noteq> []"
    by (metis emp list.set(1) empty_iff)
  have err: "\<exists>e. fst (verify_face svc db image_path) = VerifyError e"
  proof (cases "generate_embedding svc image_path")
    case (Inl e)
    then show ?thesis by (simp add: verify_face_def)
  next
    case (Inr p)
    obtain r db1 where g: "get_all_embeddings db = (r, db1)"
      by (cases "get_all_embeddings db")
    show ?thesis
    proof (cases r)
      case (Inl e)
      then show ?thesis using Inr g by (simp add: verify_face_def)
    next
      case (Inr all_students)
      then have "all_students = ?all"
        using get_all_embeddings_result g by simp
      then show ?thesis
        using compare_students_empty_embeddings[OF emp, of svc p scan_init] ne g Inr
              \<open>generate_embedding svc image_path = Inr p\<close>
        by (auto simp: verify_face_def)
    qed
  qed
  have cause: "generate_embedding svc image_path = Inr probe \<and> calls_ok 1 db
            \<and> (\<forall>d \<in> set (students db). d_is_active d \<longrightarrow>
                 (\<forall>e \<in> set (s_embeddings (deserialize_student d)). length e = length probe))
            \<longrightarrow> fst (verify_face svc db image_path) = VerifyError MinEmptySequence"
  proof (intro impI, elim conjE)
    assume p: "generate_embedding svc image_path = Inr probe"
       and ok: "calls_ok 1 db"
       and len: "\<forall>d \<in> set (students db). d_is_active d \<longrightarrow>
                 (\<forall>e \<in> set (s_embeddings (deserialize_student d)). length e = length probe)"
    have g: "get_all_embeddings db = (Inr ?all, snd (driver_call db))"
      using get_all_embeddings_ok[of 0 db] ok by simp
    have l2: "\<forall>s \<in> set ?all. \<forall>e \<in> set (e_embeddings s). length e = length probe"
      using len by auto
    obtain e where e: "compare_students svc probe ?all scan_init = Inl e"
      using compare_students_empty_embeddings[OF emp] by blast
    then have "e = MinEmptySequence"
      using compare_students_only_min_raises[OF l2] by blast
    then show "fst (verify_face svc db image_path) = VerifyError MinEmptySequence"
      using p g ne e by (simp add: verify_face_def)
  qed
  from err obtain e where "fst (verify_face svc db image_path) = VerifyError e" by blast
  then show ?thesis using cause by simp
qed

theorem verify_fails_on_empty_embeddings_witness:
  "fst (verify_face svc0 db_empty_embeddings ''probe.jpg'') = VerifyError MinEmptySequence
   \<and> \<not> ver_success (fst (verify_face svc0 db_empty_embeddings ''probe.jpg''))"
  using verify_fails_on_empty_embeddings[of db_empty_embeddings svc0 "''probe.jpg''" "[1, 0]"]
  by (simp add: db_empty_embeddings_def generate_embedding_def svc0_def calls_ok_def
                deserialize_student_def)





section \<open>Properties of attendance\<close>

lemma get_all_embeddings_frame:
  "students (snd (get_all_embeddings db)) = students db"
  "attendance (snd (get_all_embeddings db)) = attendance db"
  "next_oid (snd (get_all_embeddings db)) = next_oid db"
  by (simp_all add: get_all_embeddings_def split_def Let_def driver_call_frame)

lemma verify_face_frame:
  "students (snd (verify_face svc db image_path)) = students db"
  "attendance (snd (verify_face svc db image_path)) = attendance db"
  "next_oid (snd (verify_face svc db image_path)) = next_oid db"
  using get_all_embeddings_frame[of db]
  by (auto simp: verify_face_def split: sum.splits prod.splits)

lemma driver_call_fault:
  assumes "\<not> calls_ok 1 db"
  shows "fst (driver_call db) = True"
  using assms by (auto simp: calls_ok_def driver_call_def split: list.splits)

lemma record_attendance_ok:
  assumes "calls_ok 1 db"
  shows "fst (record_attendance db sid check_in_time image_path) = Inr (next_oid db)"
    and "\<exists>rec. attendance (snd (record_attendance db sid check_in_time image_path))
                 = attendance db @ [rec]
               \<and> a_oid rec = next_oid db \<and> a_student_id rec = sid
               \<and> a_check_in rec = check_in_time"
  using driver_call_ok[of 0 db] assms
  by (simp_all add: record_attendance_def split_def Let_def)

lemma record_attendance_fault:
  assumes "\<not> calls_ok 1 db"
  shows "fst (record_attendance db sid check_in_time image_path) = Inl PyMongoError"
    and "attendance (snd (record_attendance db sid check_in_time image_path)) = attendance db"
  using driver_call_fault[OF assms]
  by (simp_all add: record_attendance_def split_def Let_def driver_call_frame)

text \<open>
  Claim C7. Let \<^verbatim>\<open>verify_face\<close> return the result \<open>vr\<close>. If it is a match and the
  insertion does not fail, \<^verbatim>\<open>mark_attendance\<close> adds exactly one record to the attendance
  collection, for the matched student and the given time, and returns the id of that
  record. If \<open>vr\<close> is not a match, the result is a success with \<^verbatim>\<open>attendance_marked\<close>
  false and the collection is unchanged. If \<open>vr\<close> is a match and the insertion fails,
  the result is the failure carrying the exception, not a no-match, and the collection
  is unchanged.
\<close>

theorem mark_attendance_atomic:
  assumes "verify_face svc db image_path = (vr, db1)"
  shows "(ver_matched vr = Some True \<and> calls_ok 1 db1 \<longrightarrow>
            (\<exists>student confidence rec.
               ver_best vr = Some student
             \<and> fst (mark_attendance svc db image_path timestamp)
                 = AttendanceMarked (a_oid rec) (c_student_id student) (c_name student)
                     confidence
             \<and> attendance (snd (mark_attendance svc db image_path timestamp))
                 = attendance db @ [rec]
             \<and> a_student_id rec = c_student_id student
             \<and> a_check_in rec = timestamp))
       \<and> (ver_matched vr = Some False \<longrightarrow>
            att_success (fst (mark_attendance svc db image_path timestamp))
          \<and> att_marked (fst (mark_attendance svc db image_path timestamp)) = Some False
          \<and> attendance (snd (mark_attendance svc db image_path timestamp)) = attendance db)
       \<and> (ver_matched vr = Some True \<and> \<not> calls_ok 1 db1 \<longrightarrow>
            fst (mark_attendance svc db image_path timestamp)
              = AttendanceError (Str PyMongoError)
          \<and> \<not> att_success (fst (mark_attendance svc db image_path timestamp))
          \<and> att_marked (fst (mark_attendance svc db image_path timestamp)) \<noteq> Some False
          \<and> attendance (snd (mark_attendance svc db image_path timestamp)) = attendance db)"
proof -
  have fr: "attendance db1 = attendance db"
    using verify_face_frame(2)[of svc db image_path] assms by simp
  show ?thesis
  proof (cases vr)
    case VerifyNoStudents
    then show ?thesis using assms fr by (simp add: mark_attendance_def)
  next
    case (VerifyMatched student confidence distance ms)
    obtain r db2 where ra:
      "record_attendance db1 (c_student_id student) timestamp (Some image_path) = (r, db2)"
      by (cases "record_attendance db1 (c_student_id student) timestamp (Some image_path)")
    have m: "mark_attendance svc db image_path timestamp =
               (case r of
                  Inl e \<Rightarrow> (AttendanceError (Str e), db2)
                | Inr attendance_id \<Rightarrow>
                    (AttendanceMarked attendance_id (c_student_id student) (c_name student)
                       confidence, db2))"
      using assms VerifyMatched ra by (simp add: mark_attendance_def)
    show ?thesis
    proof (cases "calls_ok 1 db1")
      case True
      from record_attendance_ok[OF True, of "c_student_id student" timestamp "Some image_path"]
      obtain rec where "r = Inr (next_oid db1)" "attendance db2 = attendance db1 @ [rec]"
        "a_oid rec = next_oid db1" "a_student_id rec = c_student_id student"
        "a_check_in rec = timestamp"
        using ra by auto
      then show ?thesis
        using True VerifyMatched m fr by auto
    next
      case False
      from record_attendance_fault[OF False, of "c_student_id student" timestamp "Some image_path"]
      have "r = Inl PyMongoError" "attendance db2 = attendance db1"
        using ra by simp_all
      then show ?thesis
        using False VerifyMatched m fr by simp
    qed
  next
    case (VerifyNotMatched bm confidence distance ms)
    then show ?thesis using assms fr by (simp add: mark_attendance_def)
  next
    case (VerifyError e)
    then show ?thesis by simp
  qed
qed

lemma verify_face_eval_simps:
  "verify_face svc0 db_two ''probe.jpg'' =
     (VerifyMatched \<lparr> c_student_id = ''alice'', c_name = ''Alice'', c_distance = Fin (1 / 5) \<rparr>
        (Fin (4 / 5)) (Fin (1 / 5))
        (Some [\<lparr> c_student_id = ''alice'', c_name = ''Alice'', c_distance = Fin (1 / 5) \<rparr>,
               \<lparr> c_student_id = ''bob'', c_name = ''Bob'', c_distance = Fin (1 / 5) \<rparr>]),
      db_two)"
  "verify_face svc0 db_far ''probe.jpg'' =
     (VerifyNotMatched
        (Some \<lparr> c_student_id = ''dan'', c_name = ''Dan'', c_distance = Fin 1 \<rparr>)
        (Fin 0) (Fin 1)
        (Some [\<lparr> c_student_id = ''dan'', c_name = ''Dan'', c_distance = Fin 1 \<rparr>]), db_far)"
  "verify_face svc0 db_two_insert_fails ''probe.jpg'' =
     (VerifyMatched \<lparr> c_student_id = ''alice'', c_name = ''Alice'', c_distance = Fin (1 / 5) \<rparr>
        (Fin (4 / 5)) (Fin (1 / 5))
        (Some [\<lparr> c_student_id = ''alice'', c_name = ''Alice'', c_distance = Fin (1 / 5) \<rparr>,
               \<lparr> c_student_id = ''bob'', c_name = ''Bob'', c_distance = Fin (1 / 5) \<rparr>]),
      db_two\<lparr> faults := [True] \<rparr>)"
  by (simp_all add: verify_face_def generate_embedding_def svc0_def get_all_embeddings_def
        db_two_def db_far_def db_two_insert_fails_def driver_call_def deserialize_student_def
        cosine_distance_def np_dot_def exact_def sqrt_25 scan_init_def
        Let_def decide_def top_matches_def)

theorem mark_attendance_atomic_witness:
  "(\<exists>confidence rec.
       fst (mark_attendance svc0 db_two ''probe.jpg'' (Some ''2024-03-01T09:00:00''))
         = AttendanceMarked (a_oid rec) ''alice'' ''Alice'' confidence
     \<and> attendance (snd (mark_attendance svc0 db_two ''probe.jpg'' (Some ''2024-03-01T09:00:00'')))
         = [rec])
   \<and> att_marked (fst (mark_attendance svc0 db_far ''probe.jpg'' None)) = Some False
   \<and> attendance (snd (mark_attendance svc0 db_far ''probe.jpg'' None)) = []
   \<and> fst (mark_attendance svc0 db_two_insert_fails ''probe.jpg'' None)
       = AttendanceError (Str PyMongoError)
   \<and> attendance (snd (mark_attendance svc0 db_two_insert_fails ''probe.jpg'' None)) = []"
proof -
  have a: "\<exists>confidence rec.
       fst (mark_attendance svc0 db_two ''probe.jpg'' (Some ''2024-03-01T09:00:00''))
         = AttendanceMarked (a_oid rec) ''alice'' ''Alice'' confidence
     \<and> attendance (snd (mark_attendance svc0 db_two ''probe.jpg'' (Some ''2024-03-01T09:00:00'')))
         = [rec]"
  proof -
    have "calls_ok 1 db_two" "attendance db_two = []"
      by (simp_all add: calls_ok_def db_two_def)
    then show ?thesis
      using mark_attendance_atomic[OF verify_face_eval_simps(1), of "Some ''2024-03-01T09:00:00''"]
      by auto
  qed
  have b: "att_marked (fst (mark_attendance svc0 db_far ''probe.jpg'' None)) = Some False
     \<and> attendance (snd (mark_attendance svc0 db_far ''probe.jpg'' None)) = []"
  proof -
    have "attendance db_far = []" by (simp add: db_far_def)
    then show ?thesis
      using mark_attendance_atomic[OF verify_face_eval_simps(2), of None]
      by simp
  qed
  have c: "fst (mark_attendance svc0 db_two_insert_fails ''probe.jpg'' None)
       = AttendanceError (Str PyMongoError)
     \<and> attendance (snd (mark_attendance svc0 db_two_insert_fails ''probe.jpg'' None)) = []"
  proof -
    have "\<not> calls_ok 1 (db_two\<lparr> faults := [True] \<rparr>)"
         "attendance db_two_insert_fails = []"
      by (auto simp: calls_ok_def db_two_def db_two_insert_fails_def)
    then show ?thesis
      using mark_attendance_atomic[OF verify_face_eval_simps(3), of None]
      by simp
  qed
  show ?thesis using a b c by blast
qed

section \<open>Properties of augmentation\<close>

lemma update_first_find:
  assumes "find (\<lambda>x. d_student_id x = sid) ds = Some d"
      and "d_student_id (f d) = sid"
  shows "find (\<lambda>x. d_student_id x = sid) (update_first sid f ds) = Some (f d)"
  using assms by (induction ds) (auto split: if_splits)

lemma update_first_others:
  "filter (\<lambda>x. d_student_id x \<noteq> sid) (update_first sid f ds)
     = filter (\<lambda>x. d_student_id x \<noteq> sid) ds
   \<or> (\<exists>d \<in> set ds. d_student_id d = sid \<and> d_student_id (f d) \<noteq> sid)"
  by (induction ds) auto

text \<open>
  Claim C8. For a student in the store (active or not), two driver calls that do not
  fail and at least one embedding extracted from the images, \<^verbatim>\<open>improve_recognition\<close>
  succeeds and reports the number of embeddings added; afterwards the embeddings of the
  student are the former ones, in their order, followed by the new ones, so their
  number has grown by the number of new ones; \<^verbatim>\<open>image_count\<close> is that number; the
  documents of the other students are unchanged.
\<close>

theorem augmentation_appends:
  assumes "find (\<lambda>x. d_student_id x = student_id) (students db) = Some d"
      and "calls_ok 2 db"
      and "successes svc temp_paths \<noteq> []"
  shows "fst (improve_recognition svc db student_id temp_paths)
           = ImproveOk (length (successes svc temp_paths)) (failures svc temp_paths)
       \<and> (\<exists>d'. find (\<lambda>x. d_student_id x = student_id)
                  (students (snd (improve_recognition svc db student_id temp_paths))) = Some d'
              \<and> s_embeddings (deserialize_student d')
                  = s_embeddings (deserialize_student d) @ successes svc temp_paths
              \<and> length (s_embeddings (deserialize_student d'))
                  = length (s_embeddings (deserialize_student d))
                    + length (successes svc temp_paths)
              \<and> d_image_count d' = length (s_embeddings (deserialize_student d'))
              \<and> d_name d' = d_name d \<and> d_is_active d' = d_is_active d)
       \<and> filter (\<lambda>x. d_student_id x \<noteq> student_id)
           (students (snd (improve_recognition svc db student_id temp_paths)))
         = filter (\<lambda>x. d_student_id x \<noteq> student_id) (students db)"
proof -
  let ?new = "successes svc temp_paths"
  let ?old = "s_embeddings (deserialize_student d)"
  let ?db1 = "snd (driver_call db)"
  let ?db2 = "snd (driver_call ?db1)"
  define upd :: "student_doc \<Rightarrow> student_doc" where "upd = (\<lambda>x. x\<lparr> d_embeddings := Some (?old @ ?new),
                      d_image_count := length (?old @ ?new),
                      d_image_paths := d_image_paths d @ temp_paths \<rparr>)"
  have ok1: "calls_ok (Suc 1) db" using assms(2) by (simp add: numeral_2_eq_2)
  have f1: "find_one_student db student_id = (Inr (Some d), ?db1)"
    using find_one_student_ok[OF ok1] assms(1) by simp
  have ok2: "calls_ok (Suc 0) ?db1" using driver_call_ok(5)[OF ok1] by simp
  have nb: "fst (driver_call ?db1) = False" using driver_call_ok(1)[OF ok2] .
  have st: "students ?db2 = students db" by (simp add: driver_call_frame)
  have changed: "upd d \<noteq> d"
  proof
    assume "upd d = d"
    then have "d_embeddings (upd d) = d_embeddings d" by simp
    then show False using assms(3)
      by (cases "d_embeddings d") (simp_all add: upd_def deserialize_student_def)
  qed
  have u: "update_student_embeddings db student_id ?new temp_paths
             = (Inr True, ?db2\<lparr> students := update_first student_id upd (students db) \<rparr>)"
    using nb changed st
    by (simp add: update_student_embeddings_def f1 split_def Let_def deserialize_student_def
                  upd_def)
  have r: "improve_recognition svc db student_id temp_paths
             = (ImproveOk (length ?new) (failures svc temp_paths),
                ?db2\<lparr> students := update_first student_id upd (students db) \<rparr>)"
    using assms(3) by (simp add: improve_recognition_def process_images_acc u)
  have sid: "d_student_id d = student_id"
    using assms(1) by (auto simp: find_Some_iff)
  have sid': "d_student_id (upd x) = d_student_id x" for x
    by (simp add: upd_def)
  have fnd: "find (\<lambda>x. d_student_id x = student_id)
               (update_first student_id upd (students db)) = Some (upd d)"
    by (rule update_first_find[OF assms(1)]) (simp add: sid sid')
  have oth: "filter (\<lambda>x. d_student_id x \<noteq> student_id)
               (update_first student_id upd (students db))
             = filter (\<lambda>x. d_student_id x \<noteq> student_id) (students db)"
    using update_first_others[of student_id upd "students db"] by (auto simp: sid')
  have props: "s_embeddings (deserialize_student (upd d)) = ?old @ ?new"
      "d_image_count (upd d) = length (s_embeddings (deserialize_student (upd d)))"
      "d_name (upd d) = d_name d" "d_is_active (upd d) = d_is_active d"
    by (simp_all add: upd_def deserialize_student_def)
  have res: "fst (improve_recognition svc db student_id temp_paths)
               = ImproveOk (length ?new) (failures svc temp_paths)"
       "students (snd (improve_recognition svc db student_id temp_paths))
               = update_first student_id upd (students db)"
    by (simp_all add: r)
  show ?thesis
    unfolding res fnd oth using props by simp
qed

theorem augmentation_appends_witness:
  "fst (improve_recognition svc0 db_two ''alice'' [''x.jpg'', ''c.jpg'']) = ImproveOk 1
     [(''x.jpg'', ExtractionError ''Face could not be detected'')]
   \<and> map d_embeddings (students (snd (improve_recognition svc0 db_two ''alice''
         [''x.jpg'', ''c.jpg''])))
     = [Some [[3, 4], [4, 3], [1, 0]], Some [[4, 3]]]"
proof -
  let ?d = "\<lparr> d_oid = 0, d_name = ''Alice'', d_student_id = ''alice'',
             d_embeddings = Some [[3, 4], [4, 3]], d_image_count = 2,
             d_image_paths = [], d_is_active = True \<rparr>"
  have h1: "find (\<lambda>x. d_student_id x = ''alice'') (students db_two) = Some ?d"
    by (simp add: db_two_def)
  have h2: "calls_ok 2 db_two" by (simp add: calls_ok_def db_two_def)
  have s: "successes svc0 [''x.jpg'', ''c.jpg''] = [[1, 0]]"
    by (simp add: successes_def List.map_filter_simps generate_embedding_def svc0_def)
  have h3: "successes svc0 [''x.jpg'', ''c.jpg''] \<noteq> []" by (simp add: s)
  have f: "failures svc0 [''x.jpg'', ''c.jpg'']
             = [(''x.jpg'', ExtractionError ''Face could not be detected'')]"
    by (simp add: failures_def List.map_filter_simps generate_embedding_def svc0_def)
  from augmentation_appends[OF h1 h2 h3]
  have "fst (improve_recognition svc0 db_two ''alice'' [''x.jpg'', ''c.jpg'']) = ImproveOk 1
     [(''x.jpg'', ExtractionError ''Face could not be detected'')]"
    by (simp add: s f)
  moreover have "map d_embeddings (students (snd (improve_recognition svc0 db_two ''alice''
         [''x.jpg'', ''c.jpg''])))
     = [Some [[3, 4], [4, 3], [1, 0]], Some [[4, 3]]]"
    by (simp add: improve_recognition_def process_images_acc s f update_student_embeddings_def
          find_one_student_def driver_call_def db_two_def split_def Let_def)
  ultimately show ?thesis by simp
qed

end
